theory Spec2Isabelle
  imports Main "HOL-Library.Char_ord" "HOL-Library.List_Lexorder" "HOL-Library.Sublist"
begin

section \<open>Strings\<close>

text \<open>
  Python 2 byte strings are modelled as \<open>string\<close>. \<open>s.lstrip(c)\<close> and \<open>s.rstrip(c)\<close>
  with a one-character argument remove every leading (trailing) occurrence of that
  character.
\<close>

definition lstrip :: "char \<Rightarrow> string \<Rightarrow> string" where
  "lstrip c s = dropWhile (\<lambda>x. x = c) s"

definition rstrip :: "char \<Rightarrow> string \<Rightarrow> string" where
  "rstrip c s = rev (dropWhile (\<lambda>x. x = c) (rev s))"

section \<open>Route namespacing\<close>

text \<open>
  \<^verbatim>\<open>url_base = "%s/%s/" % (self._app_url_base.rstrip('/'), service_name)\<close> and
  \<^verbatim>\<open>effective_url = url_base + rule[0].lstrip('/')\<close> of \<open>_discover_services\<close>.
\<close>

definition url_base :: "string \<Rightarrow> string \<Rightarrow> string" where
  "url_base app_url_base service_name =
     rstrip (CHR ''/'') app_url_base @ ''/'' @ service_name @ ''/''"

definition effective_url :: "string \<Rightarrow> string \<Rightarrow> string" where
  "effective_url ub pattern = ub @ lstrip (CHR ''/'') pattern"

text \<open>
  The wording of the specification for the same step: at most one leading separator is
  removed from the local pattern before the base URL is prepended.
\<close>

definition spec_strip_one_leading :: "string \<Rightarrow> string" where
  "spec_strip_one_leading pattern =
     (case pattern of [] \<Rightarrow> [] | c # r \<Rightarrow> if c = CHR ''/'' then r else pattern)"

definition spec_effective_url :: "string \<Rightarrow> string \<Rightarrow> string" where
  "spec_effective_url ub pattern = ub @ spec_strip_one_leading pattern"

section \<open>Exceptions and logging\<close>

text \<open>
  A raised Python exception, as far as the code inspects it: the name of its class, the
  names of the base classes of that class (what \<open>isinstance\<close> and the \<open>except\<close>
  clauses test), \<open>str(e)\<close>, \<open>str(e.reason)\<close> when the attribute \<open>reason\<close> exists, and
  the \<open>status_code\<close> and \<open>log_message\<close> attributes, which the code reads on instances
  of \<open>tornado.web.HTTPError\<close> only.
\<close>

record pyexc =
  exc_class :: string
  exc_bases :: "string list"
  exc_str :: string
  exc_reason :: "string option"
  exc_status_code :: int
  exc_log_message :: "string option"

definition isinstance :: "pyexc \<Rightarrow> string \<Rightarrow> bool" where
  "isinstance e c = (c \<in> set (exc_class e # exc_bases e))"

definition mk_exc :: "string \<Rightarrow> string list \<Rightarrow> string \<Rightarrow> pyexc" where
  "mk_exc c bases msg =
     \<lparr>exc_class = c, exc_bases = bases, exc_str = msg, exc_reason = None,
      exc_status_code = 0, exc_log_message = None\<rparr>"

text \<open>
  The log is the sequence of calls made on the logger, each with its level and its
  formatted message; \<open>logger.exception(m)\<close> logs at level ERROR.
\<close>

datatype level = DEBUG | INFO | WARNING | ERROR

type_synonym log_entry = "level \<times> string"

section \<open>Manifest files\<close>

text \<open>
  \<open>ConfigParser.SafeConfigParser(defaults)\<close> followed by \<open>read\<close>: the named sections of
  the file with their options, or the exception \<open>read\<close> raises on a file it cannot
  parse. A file that cannot be opened is skipped by \<open>read\<close> and leaves no section.
  An option is kept with what \<open>get\<close> and \<open>items\<close> make of it: its value after
  interpolation, or the interpolation error that they raise for it.
\<close>

type_synonym cfg_value = "pyexc + string"

type_synonym cfg_section = "(string \<times> cfg_value) list"

datatype manifest_file = Malformed pyexc | Parsed "(string \<times> cfg_section) list"

record config =
  cfg_defaults :: cfg_section
  cfg_sections :: "(string \<times> cfg_section) list"

definition MANIFEST_FILE_NAME :: string where
  "MANIFEST_FILE_NAME = ''MANIFEST''"

definition MANIFEST_MAIN_SECTION :: string where
  "MANIFEST_MAIN_SECTION = ''service''"

definition MANIFEST_SETTINGS_SECTION :: string where
  "MANIFEST_SETTINGS_SECTION = ''settings''"

definition SERVICES_PACKAGE_NAME :: string where
  "SERVICES_PACKAGE_NAME = ''pycstbox.webservices.services''"

definition services_cfg_defaults :: cfg_section where
  "services_cfg_defaults = [(''mapping'', Inr ''handlers'')]"

definition cfg_read :: "cfg_section \<Rightarrow> manifest_file \<Rightarrow> pyexc + config" where
  "cfg_read defaults f =
     (case f of
        Malformed e \<Rightarrow> Inl e
      | Parsed secs \<Rightarrow> Inr \<lparr>cfg_defaults = defaults, cfg_sections = secs\<rparr>)"

definition NoSectionError :: "string \<Rightarrow> pyexc" where
  "NoSectionError sec =
     mk_exc ''NoSectionError'' [''Error'', ''Exception'', ''BaseException'']
       (''No section: '' @ [CHR 0x27] @ sec @ [CHR 0x27])"

definition NoOptionError :: "string \<Rightarrow> string \<Rightarrow> pyexc" where
  "NoOptionError opt sec =
     mk_exc ''NoOptionError'' [''Error'', ''Exception'', ''BaseException'']
       (''No option '' @ [CHR 0x27] @ opt @ [CHR 0x27] @ '' in section: ''
          @ [CHR 0x27] @ sec @ [CHR 0x27])"

definition cfg_get :: "config \<Rightarrow> string \<Rightarrow> string \<Rightarrow> pyexc + string" where
  "cfg_get mf sec opt =
     (case map_of (cfg_sections mf) sec of
        None \<Rightarrow> Inl (NoSectionError sec)
      | Some d \<Rightarrow>
          (case map_of (d @ cfg_defaults mf) opt of
             None \<Rightarrow> Inl (NoOptionError opt sec)
           | Some v \<Rightarrow> v))"

text \<open>
  \<open>items(section)\<close> copies the defaults, updates the copy with the options of the
  section, so that every name occurs once and the section shadows the defaults, and
  interpolates every value: the first interpolation error is raised.
\<close>

fun dict_of :: "(string \<times> 'v) list \<Rightarrow> (string \<times> 'v) list" where
  "dict_of [] = []"
| "dict_of (kv # kvs) = kv # filter (\<lambda>p. fst p \<noteq> fst kv) (dict_of kvs)"

fun interpolate_all :: "cfg_section \<Rightarrow> pyexc + (string \<times> string) list" where
  "interpolate_all [] = Inr []"
| "interpolate_all ((k, Inl e) # kvs) = Inl e"
| "interpolate_all ((k, Inr v) # kvs) =
     (case interpolate_all kvs of Inl e \<Rightarrow> Inl e | Inr vs \<Rightarrow> Inr ((k, v) # vs))"

definition cfg_items :: "config \<Rightarrow> string \<Rightarrow> pyexc + (string \<times> string) list" where
  "cfg_items mf sec =
     (case map_of (cfg_sections mf) sec of
        None \<Rightarrow> Inl (NoSectionError sec)
      | Some d \<Rightarrow> interpolate_all (dict_of (d @ cfg_defaults mf)))"

section \<open>Service plugins and their discovery\<close>

text \<open>
  A route rule is the tuple \<open>(url pattern, handler class, ...)\<close>; the code reads
  \<open>rule[0]\<close> and keeps \<open>rule[1:]\<close> as it is, so the rest of the tuple is a type
  parameter.
\<close>

type_synonym 'h rule = "string \<times> 'h"

record 'h ServiceDescriptor =
  name :: string
  label :: string
  handlers :: "'h rule list"

text \<open>
  An imported service module: its attribute \<open>_init_\<close> when it has one (a callable is
  given by what the call \<open>init_func(logger=..., settings=...)\<close> raises, if anything,
  for the settings dictionary it is given) and the attributes that hold a route table,
  as they are when \<open>getattr\<close> reads them.
\<close>

datatype init_func = NotCallable | Callable "(string \<times> string) list option \<Rightarrow> pyexc option"

record 'h py_module =
  mod_init :: "init_func option"
  mod_attrs :: "(string \<times> 'h rule list) list"

text \<open>
  The services home directory: its path and its entries. A sub-directory is given by
  \<open>os.listdir\<close> of it and by what \<open>read\<close> loads from the file \<open>MANIFEST\<close> in it.
\<close>

datatype fs_node = File | Dir "string list" manifest_file

record home_dir =
  home_path :: string
  home_entries :: "(string \<times> fs_node) list"

definition isdir :: "home_dir \<Rightarrow> string \<Rightarrow> bool" where
  "isdir home d = (case map_of (home_entries home) d of Some (Dir _ _) \<Rightarrow> True | _ \<Rightarrow> False)"

definition path_join :: "string \<Rightarrow> string \<Rightarrow> string" where
  "path_join a b =
     (if b \<noteq> [] \<and> hd b = CHR ''/'' then b
      else if a = [] \<or> last a = CHR ''/'' then a @ b
      else a @ ''/'' @ b)"

text \<open>
  What the discovery takes from outside the repository: \<open>importlib.import_module\<close> by
  module name, and \<open>re.compile\<close>, given by the message of the \<open>re.error\<close> it raises on
  a pattern, if any.
\<close>

record 'h import_env =
  import_module :: "string \<Rightarrow> pyexc + 'h py_module"
  re_error :: "string \<Rightarrow> string option"

definition AttributeError :: "string \<Rightarrow> pyexc" where
  "AttributeError a =
     mk_exc ''AttributeError'' [''StandardError'', ''Exception'', ''BaseException'']
       ([CHR 0x27] @ ''module'' @ [CHR 0x27] @ '' object has no attribute ''
          @ [CHR 0x27] @ a @ [CHR 0x27])"

definition getattr :: "'h py_module \<Rightarrow> string \<Rightarrow> pyexc + 'h rule list" where
  "getattr m a =
     (case map_of (mod_attrs m) a of None \<Rightarrow> Inl (AttributeError a) | Some v \<Rightarrow> Inr v)"

definition InvalidRoute :: "string \<Rightarrow> string \<Rightarrow> pyexc" where
  "InvalidRoute url msg =
     mk_exc ''Exception'' [''BaseException'']
       ([CHR 0x22] @ url @ [CHR 0x22] @ '' is an invalid route specification ('' @ msg @ '')'')"

fun expand_rules ::
  "(string \<Rightarrow> string option) \<Rightarrow> string \<Rightarrow> 'h rule list \<Rightarrow> 'h rule list \<Rightarrow> pyexc + 'h rule list"
where
  "expand_rules re_err ub [] hs = Inr hs"
| "expand_rules re_err ub (rule # mapping) hs =
     (case re_err (effective_url ub (fst rule)) of
        Some msg \<Rightarrow> Inl (InvalidRoute (effective_url ub (fst rule)) msg)
      | None \<Rightarrow> expand_rules re_err ub mapping (hs @ [(effective_url ub (fst rule), snd rule)]))"

definition invoke_init ::
  "config \<Rightarrow> init_func option \<Rightarrow> log_entry list \<Rightarrow> log_entry list \<times> pyexc option"
where
  "invoke_init mf init lg =
     (case init of
        None \<Rightarrow> (lg, None)
      | Some NotCallable \<Rightarrow> (lg, None)
      | Some (Callable init_func) \<Rightarrow>
          (let lg1 = lg @ [(INFO, ''... invoking module _init_ function...'')];
               settings = (case cfg_items mf MANIFEST_SETTINGS_SECTION of
                             Inl e \<Rightarrow> if isinstance e ''NoSectionError'' then Inr None else Inl e
                           | Inr d \<Rightarrow> Inr (Some d))
           in case settings of
                Inl e \<Rightarrow> (lg1, Some e)
              | Inr s \<Rightarrow>
                  (case init_func s of
                     Some e \<Rightarrow> (lg1, Some e)
                   | None \<Rightarrow> (lg1 @ [(INFO, ''... module _init_ OK'')], None))))"

text \<open>The body of the \<open>try\<close> statement of \<open>_discover_services\<close>.\<close>

definition load_service ::
  "'h import_env \<Rightarrow> string \<Rightarrow> string \<Rightarrow> string \<Rightarrow> string \<Rightarrow> config \<Rightarrow> log_entry list
     \<Rightarrow> log_entry list \<times> (pyexc + 'h ServiceDescriptor)"
where
  "load_service env app_base service_name lbl mapping_attr mf lg =
     (case import_module env (SERVICES_PACKAGE_NAME @ ''.'' @ service_name) of
        Inl e \<Rightarrow> (lg, Inl e)
      | Inr module \<Rightarrow>
          (case invoke_init mf (mod_init module) lg of
             (lg1, Some e) \<Rightarrow> (lg1, Inl e)
           | (lg1, None) \<Rightarrow>
               (case getattr module mapping_attr of
                  Inl e \<Rightarrow> (lg1, Inl e)
                | Inr mapping \<Rightarrow>
                    (case expand_rules (re_error env) (url_base app_base service_name) mapping [] of
                       Inl e \<Rightarrow> (lg1, Inl e)
                     | Inr hs \<Rightarrow>
                         (lg1 @ [(INFO, ''>>> success'')],
                          Inr \<lparr>name = service_name, label = lbl, handlers = hs\<rparr>)))))"

text \<open>The two \<open>except\<close> clauses that follow it, and the normal exit.\<close>

definition after_load ::
  "string \<Rightarrow> 'h ServiceDescriptor list \<Rightarrow> log_entry list \<times> (pyexc + 'h ServiceDescriptor)
     \<Rightarrow> log_entry list \<times> (pyexc + 'h ServiceDescriptor list)"
where
  "after_load service_name services r =
     (case r of
        (lg, Inr d) \<Rightarrow> (lg, Inr (services @ [d]))
      | (lg, Inl e) \<Rightarrow>
          if isinstance e ''ImportError'' \<or> isinstance e ''AttributeError''
          then (lg @ [(ERROR, ''['' @ exc_class e @ ''] '' @ exc_str e)], Inl e)
          else if isinstance e ''Exception''
          then (lg @ [(ERROR, exc_str e),
                      (ERROR, ''*** Could not load service '' @ [CHR 0x27] @ service_name
                                @ [CHR 0x27] @ '' because of previous exception'')],
                Inr services)
          else (lg, Inl e))"

text \<open>Reading the manifest: \<open>mf.read\<close> and the two \<open>mf.get\<close> calls, outside the \<open>try\<close>.\<close>

definition read_manifest :: "manifest_file \<Rightarrow> pyexc + (config \<times> string \<times> string)" where
  "read_manifest f =
     (case cfg_read services_cfg_defaults f of
        Inl e \<Rightarrow> Inl e
      | Inr mf \<Rightarrow>
          (case cfg_get mf MANIFEST_MAIN_SECTION ''label'' of
             Inl e \<Rightarrow> Inl e
           | Inr lbl \<Rightarrow>
               (case cfg_get mf MANIFEST_MAIN_SECTION ''mapping'' of
                  Inl e \<Rightarrow> Inl e
                | Inr mapping_attr \<Rightarrow> Inr (mf, lbl, mapping_attr))))"

definition marker_files :: "string list" where
  "marker_files = [MANIFEST_FILE_NAME, ''__init__.py'']"

definition OSError :: "string \<Rightarrow> pyexc" where
  "OSError path =
     mk_exc ''OSError'' [''EnvironmentError'', ''StandardError'', ''Exception'', ''BaseException'']
       (''[Errno 20] Not a directory: '' @ [CHR 0x27] @ path @ [CHR 0x27])"

text \<open>One iteration of the loop over the sorted directory names.\<close>

definition discover_step ::
  "'h import_env \<Rightarrow> string \<Rightarrow> home_dir \<Rightarrow> string \<Rightarrow> log_entry list \<times> 'h ServiceDescriptor list
     \<Rightarrow> log_entry list \<times> (pyexc + 'h ServiceDescriptor list)"
where
  "discover_step env app_base home service_name st =
     (let service_path = path_join (home_path home) service_name;
          lg1 = fst st @ [(INFO, ''analysing directory '' @ service_path @ ''...'')]
      in case map_of (home_entries home) service_name of
           Some (Dir files manifest) \<Rightarrow>
             if \<not> set marker_files \<subseteq> set files
             then (lg1 @ [(INFO, ''*** expected files not found => discarded'')], Inr (snd st))
             else
               (let lg2 = lg1 @ [(INFO, ''... valid service location'')]
                in case read_manifest manifest of
                     Inl e \<Rightarrow> (lg2, Inl e)
                   | Inr (mf, lbl, mapping_attr) \<Rightarrow>
                       after_load service_name (snd st)
                         (load_service env app_base service_name lbl mapping_attr mf
                            (lg2 @ [(INFO, ''... loading service '' @ [CHR 0x27] @ service_name
                                      @ [CHR 0x27] @ '' from module '' @ [CHR 0x27]
                                      @ SERVICES_PACKAGE_NAME @ ''.'' @ service_name
                                      @ [CHR 0x27] @ ''...'')])))
         | _ \<Rightarrow> (lg1, Inl (OSError service_path)))"

fun discover_loop ::
  "'h import_env \<Rightarrow> string \<Rightarrow> home_dir \<Rightarrow> string list \<Rightarrow> log_entry list \<times> 'h ServiceDescriptor list
     \<Rightarrow> log_entry list \<times> (pyexc + 'h ServiceDescriptor list)"
where
  "discover_loop env app_base home [] st = (fst st, Inr (snd st))"
| "discover_loop env app_base home (service_name # rest) st =
     (case discover_step env app_base home service_name st of
        (lg, Inl e) \<Rightarrow> (lg, Inl e)
      | (lg, Inr services) \<Rightarrow> discover_loop env app_base home rest (lg, services))"

definition service_names :: "home_dir \<Rightarrow> string list" where
  "service_names home = sort (filter (isdir home) (map fst (home_entries home)))"

section \<open>The application server\<close>

text \<open>
  The two list objects bound to class attributes of \<open>AppServer\<close>, and the store that
  holds their contents: every instance reads and extends the same objects.
\<close>

datatype list_ref = ToplevelHandlers | FallbackHandlers

text \<open>
  What all instances of \<open>AppServer\<close> share in one process: the class-level lists, the
  class-level list \<open>_muted_requests\<close>, and the logger named \<open>wsapi\<close>.
\<close>

record 'h process =
  lists :: "list_ref \<Rightarrow> 'h rule list"
  muted_requests :: "string list"
  logged :: "log_entry list"

text \<open>The attributes of one instance; \<open>ioloop\<close> stands for \<open>self._ioloop is not None\<close>.\<close>

record 'h AppServer =
  app_url_base :: string
  port :: int
  debug :: bool
  services_attr :: "'h ServiceDescriptor list option"
  ioloop :: bool
  handlers_attr :: "list_ref option"
  services_home :: home_dir

text \<open>\<^verbatim>\<open>if not home: home = self._services_home\<close>\<close>

definition effective_home :: "'h AppServer \<Rightarrow> home_dir option \<Rightarrow> home_dir" where
  "effective_home self home_arg =
     (case home_arg of
        None \<Rightarrow> services_home self
      | Some h \<Rightarrow> if home_path h = [] then services_home self else h)"

definition discover_services ::
  "'h import_env \<Rightarrow> 'h AppServer \<Rightarrow> home_dir option \<Rightarrow> log_entry list
     \<Rightarrow> log_entry list \<times> (pyexc + 'h ServiceDescriptor list)"
where
  "discover_services env self home_arg lg =
     (let home = effective_home self home_arg
      in discover_loop env (app_url_base self) home (service_names home)
           (lg @ [(DEBUG, ''discovering services stored in '' @ home_path home)], []))"

text \<open>
  The same run cut off after the directories \<open>ns\<close>: the state in which the loop goes
  on to the directory that follows them.
\<close>

definition discover_upto ::
  "'h import_env \<Rightarrow> 'h AppServer \<Rightarrow> home_dir option \<Rightarrow> log_entry list \<Rightarrow> string list
     \<Rightarrow> log_entry list \<times> (pyexc + 'h ServiceDescriptor list)"
where
  "discover_upto env self home_arg lg ns =
     (let home = effective_home self home_arg
      in discover_loop env (app_url_base self) home ns
           (lg @ [(DEBUG, ''discovering services stored in '' @ home_path home)], []))"

definition get_services ::
  "'h import_env \<Rightarrow> log_entry list \<times> 'h AppServer
     \<Rightarrow> (log_entry list \<times> 'h AppServer) \<times> (pyexc + 'h ServiceDescriptor list)"
where
  "get_services env st =
     (case services_attr (snd st) of
        Some services \<Rightarrow> (st, Inr services)
      | None \<Rightarrow>
          (case discover_services env (snd st) None (fst st) of
             (lg, Inl e) \<Rightarrow> ((lg, snd st), Inl e)
           | (lg, Inr services) \<Rightarrow>
               ((if length services = 0 then lg @ [(WARNING, ''No service found'')] else lg,
                 (snd st)\<lparr>services_attr := Some services\<rparr>),
                Inr services)))"

definition list_extend :: "list_ref \<Rightarrow> 'h rule list \<Rightarrow> (list_ref \<Rightarrow> 'h rule list) \<Rightarrow> (list_ref \<Rightarrow> 'h rule list)" where
  "list_extend r xs st = st(r := st r @ xs)"

definition setup_handlers ::
  "(list_ref \<Rightarrow> 'h rule list) \<Rightarrow> 'h ServiceDescriptor list
     \<Rightarrow> (list_ref \<Rightarrow> 'h rule list) \<times> list_ref"
where
  "setup_handlers st services =
     (let hs = ToplevelHandlers;
          st1 = fold (\<lambda>service. list_extend hs (handlers service)) services st;
          st2 = list_extend hs (st1 FallbackHandlers) st1
      in (st2, hs))"

text \<open>
  The class body binds \<open>toplevel_handlers\<close> to an empty list and \<open>fallback_handlers\<close>
  to the single catch-all rule.
\<close>

definition initial_lists :: "'h \<Rightarrow> list_ref \<Rightarrow> 'h rule list" where
  "initial_lists invalid_request r =
     (case r of ToplevelHandlers \<Rightarrow> [] | FallbackHandlers \<Rightarrow> [(''/.*'', invalid_request)])"

text \<open>Decimal rendering of \<open>%d\<close>.\<close>

fun str_nat :: "nat \<Rightarrow> string" where
  "str_nat n =
     (if n < 10 then [char_of (48 + n)] else str_nat (n div 10) @ [char_of (48 + n mod 10)])"

definition str_int :: "int \<Rightarrow> string" where
  "str_int i = (if i < 0 then CHR ''-'' # str_nat (nat (- i)) else str_nat (nat i))"

text \<open>
  How \<open>self._ioloop.start()\<close> comes back: stopped (by the SIGTERM handler), by a
  \<open>KeyboardInterrupt\<close>, or by another exception.
\<close>

datatype loop_exit = Stopped | KeyboardInterrupt | LoopError pyexc

text \<open>
  What \<open>start\<close> takes from outside the repository: the import environment, the name
  of a handler class (\<open>handler.__name__\<close>), what binding the port raises, if anything,
  and the run of the event loop, which handles requests (changing the shared state)
  until it exits.
\<close>

record 'h start_env =
  imports_env :: "'h import_env"
  handler_name :: "'h \<Rightarrow> string"
  listen :: "int \<Rightarrow> pyexc option"
  ioloop_start :: "'h process \<Rightarrow> loop_exit \<times> 'h process"

definition already_started :: pyexc where
  "already_started =
     mk_exc ''RuntimeError'' [''StandardError'', ''Exception'', ''BaseException'']
       ''server already started''"

definition info :: "string \<Rightarrow> 'h process \<Rightarrow> 'h process" where
  "info msg p = p\<lparr>logged := logged p @ [(INFO, msg)]\<rparr>"

text \<open>
  \<open>start\<close> up to the call of \<open>self._ioloop.start()\<close>: an exception raised on the way,
  or the state in which the event loop is entered.
\<close>

definition start_begin ::
  "'h start_env \<Rightarrow> 'h process \<times> 'h AppServer \<Rightarrow> pyexc option \<times> 'h process \<times> 'h AppServer"
where
  "start_begin env st =
     (if ioloop (snd st) then (Some already_started, st)
      else
        (let p1 = info ''server initializing'' (fst st)
         in case get_services (imports_env env) (logged p1, snd st) of
              ((lg, self1), Inl e) \<Rightarrow> (Some e, p1\<lparr>logged := lg\<rparr>, self1)
            | ((lg, self1), Inr services) \<Rightarrow>
                (let (store, r) = setup_handlers (lists p1) services;
                     self2 = self1\<lparr>handlers_attr := Some r\<rparr>;
                     p2 = p1\<lparr>lists := store,
                             logged := lg @ [(INFO, ''url dispatch rules:'')]
                               @ map (\<lambda>rule. (INFO, '' - '' @ fst rule @ '' -> ''
                                                      @ handler_name env (snd rule)))
                                     (store r)\<rparr>
                 in case listen env (port self2) of
                      Some e \<Rightarrow> (Some e, p2, self2)
                    | None \<Rightarrow>
                        (None,
                         info ''web server started''
                           (info (''listening on port '' @ str_int (port self2)) p2),
                         self2\<lparr>ioloop := True\<rparr>))))"

text \<open>\<open>start\<close> from the return of \<open>self._ioloop.start()\<close> on.\<close>

definition start_end ::
  "loop_exit \<Rightarrow> 'h process \<times> 'h AppServer \<Rightarrow> pyexc option \<times> 'h process \<times> 'h AppServer"
where
  "start_end ex st =
     (case ex of
        Stopped \<Rightarrow> (None, info ''terminated'' (fst st), (snd st)\<lparr>ioloop := False\<rparr>)
      | KeyboardInterrupt \<Rightarrow>
          (None, info ''terminated'' (info ''SIGINT received.'' (fst st)),
           (snd st)\<lparr>ioloop := False\<rparr>)
      | LoopError e \<Rightarrow> (Some e, st))"

definition start ::
  "'h start_env \<Rightarrow> 'h process \<times> 'h AppServer \<Rightarrow> pyexc option \<times> 'h process \<times> 'h AppServer"
where
  "start env st =
     (case start_begin env st of
        (Some e, st1) \<Rightarrow> (Some e, st1)
      | (None, p, self1) \<Rightarrow>
          (case ioloop_start env p of (ex, p') \<Rightarrow> start_end ex (p', self1)))"

section \<open>Request logging\<close>

text \<open>
  A completed request as \<open>_log_request\<close> reads it: \<open>handler.get_status()\<close>,
  \<open>handler.request.uri\<close>, the attribute \<open>disable_request_logging\<close> of the handler
  (\<open>None\<close> when the handler has none), and the text of the log line
  \<^verbatim>\<open>"%d %s %.2fms" % (status, summary, request_time)\<close>.
\<close>

record completed_request =
  req_status :: int
  req_uri :: string
  req_disable_logging :: "bool option"
  req_line :: string

definition log_request :: "completed_request \<Rightarrow> 'h process \<Rightarrow> 'h process" where
  "log_request h p =
     (if req_status h < 400 then
        (if req_uri h \<in> set (muted_requests p) then p
         else
           (let dont_log = (case req_disable_logging h of None \<Rightarrow> False | Some b \<Rightarrow> b);
                p1 = (if dont_log
                      then p\<lparr>muted_requests := muted_requests p @ [req_uri h],
                             logged := logged p @ [(WARNING, ''request '' @ [CHR 0x27] @ req_uri h
                                        @ [CHR 0x27] @ '' is muted => last time we log it'')]\<rparr>
                      else p)
            in p1\<lparr>logged := logged p1 @ [(INFO, req_line h)]\<rparr>))
      else if req_status h < 500 then p\<lparr>logged := logged p @ [(WARNING, req_line h)]\<rparr>
      else p\<lparr>logged := logged p @ [(ERROR, req_line h)]\<rparr>)"

text \<open>The requests of a process, logged one after the other.\<close>

definition log_requests :: "completed_request list \<Rightarrow> 'h process \<Rightarrow> 'h process" where
  "log_requests hs p = fold log_request hs p"

definition emitted :: "completed_request \<Rightarrow> 'h process \<Rightarrow> log_entry list" where
  "emitted h p = drop (length (logged p)) (logged (log_request h p))"

definition muting :: "completed_request \<Rightarrow> bool" where
  "muting h = (req_status h < 400 \<and> req_disable_logging h = Some True)"

definition mute_warning :: "string \<Rightarrow> log_entry" where
  "mute_warning uri =
     (WARNING, ''request '' @ [CHR 0x27] @ uri @ [CHR 0x27] @ '' is muted => last time we log it'')"

section \<open>Request handlers\<close>

text \<open>
  The response under construction, as the methods of \<open>tornado.web.RequestHandler\<close>
  used here change it. \<open>set_status\<close> sets the status. \<open>write\<close> (here \<open>write_chunk\<close>)
  appends a chunk to the write buffer and raises \<open>RuntimeError\<close> on a response that is
  finished. \<open>flush\<close> sends the headers with what has been written and raises
  \<open>RuntimeError\<close> on a request that is already finished. \<open>clear\<close> resets the status
  and drops the output. \<open>finish\<close> sends what is left and ends the response.
  \<open>write_buffer\<close> holds the chunks written since the last \<open>clear\<close>, in order;
  \<open>logger\<close> stands for \<open>self._logger\<close> being set, \<open>log_calls\<close> for the calls made
  on it.
\<close>

datatype json = JNull | JString string | JObject "(string \<times> json) list"

record handler =
  logger :: bool
  log_calls :: "log_entry list"
  status :: int
  write_buffer :: "json list"
  headers_written :: bool
  finished :: bool

type_synonym handler_method = "handler \<Rightarrow> pyexc option \<times> handler"

definition set_status :: "int \<Rightarrow> handler \<Rightarrow> handler" where
  "set_status c h = h\<lparr>status := c\<rparr>"

definition write_after_finish :: pyexc where
  "write_after_finish =
     mk_exc ''RuntimeError'' [''StandardError'', ''Exception'', ''BaseException'']
       ''Cannot write() after finish()''"

definition write_chunk :: "json \<Rightarrow> handler_method" where
  "write_chunk chunk h =
     (if finished h then (Some write_after_finish, h)
      else (None, h\<lparr>write_buffer := write_buffer h @ [chunk]\<rparr>))"

definition flush :: handler_method where
  "flush h =
     (if finished h
      then (Some (mk_exc ''RuntimeError'' [''StandardError'', ''Exception'', ''BaseException'']
                    ''request already finished''), h)
      else (None, h\<lparr>headers_written := True\<rparr>))"


definition finish :: "handler \<Rightarrow> handler" where
  "finish h = h\<lparr>headers_written := True, finished := True\<rparr>"

definition reply_not_implemented :: handler_method where
  "reply_not_implemented h =
     write_chunk (JObject [(''message'', JString ''not yet implemented'')]) (set_status 501 h)"

definition exception_reply :: "pyexc \<Rightarrow> handler_method" where
  "exception_reply e h =
     (let h1 = (if logger h
                then h\<lparr>log_calls := log_calls h @
                         [(ERROR, ''unexpected error '' @ [CHR 0x27] @ exc_class e @ [CHR 0x27]
                                    @ '' with message '' @ [CHR 0x27] @ exc_str e @ [CHR 0x27]),
                          (ERROR, ''--- end of traceback ---'')]\<rparr>
                else h)
      in write_chunk (JObject [(''errtype'', JString (exc_class e)),
                               (''message'', JString (exc_str e)),
                               (''additInfos'', JString (case exc_reason e of None \<Rightarrow> [] | Some r \<Rightarrow> r))])
           (set_status 500 h1))"



definition process_request :: "handler_method \<Rightarrow> handler_method" where
  "process_request m h =
     (case m h of
        (Some e, h1) \<Rightarrow>
          if isinstance e ''Exception'' then
            (let h2 = (if logger h1
                       then h1\<lparr>log_calls := log_calls h1 @ [(ERROR, exc_str e)]\<rparr> else h1)
             in if isinstance e ''HTTPError'' then (Some e, h2)
                else exception_reply e h2)
          else (Some e, h1)
      | (None, h1) \<Rightarrow>
          (case flush h1 of
             (Some e, h2) \<Rightarrow> if isinstance e ''RuntimeError'' then (None, h2) else (Some e, h2)
           | (None, h2) \<Rightarrow> (None, h2)))"

text \<open>
  A handler class is given by its four \<open>do_\<close> methods; a subclass overrides some of
  them. \<open>WSHandler\<close> answers every verb with the not-implemented reply.
\<close>

record handler_class =
  do_get :: handler_method
  do_post :: handler_method
  do_put :: handler_method
  do_delete :: handler_method

definition WSHandler :: handler_class where
  "WSHandler =
     \<lparr>do_get = reply_not_implemented,
      do_post = reply_not_implemented,
      do_put = reply_not_implemented,
      do_delete = reply_not_implemented\<rparr>"

definition get :: "handler_class \<Rightarrow> handler_method" where
  "get cls = process_request (do_get cls)"

definition post :: "handler_class \<Rightarrow> handler_method" where
  "post cls = process_request (do_post cls)"

definition put :: "handler_class \<Rightarrow> handler_method" where
  "put cls = process_request (do_put cls)"

definition delete :: "handler_class \<Rightarrow> handler_method" where
  "delete cls = process_request (do_delete cls)"

text \<open>\<open>AppServer.InvalidRequest\<close>, the handler of the fallback rule \<open>/.*\<close>.\<close>

definition InvalidRequest_do_get :: handler_method where
  "InvalidRequest_do_get h = (None, set_status 404 h)"

definition InvalidRequest_do_post :: handler_method where
  "InvalidRequest_do_post h = InvalidRequest_do_get h"

definition InvalidRequest :: handler_class where
  "InvalidRequest = WSHandler\<lparr>do_get := InvalidRequest_do_get, do_post := InvalidRequest_do_post\<rparr>"

text \<open>A request handler as Tornado creates it: status 200, nothing written.\<close>

definition new_handler :: "bool \<Rightarrow> handler" where
  "new_handler lg =
     \<lparr>logger = lg, log_calls = [], status = 200, write_buffer = [], headers_written = False,
      finished = False\<rparr>"

subsection \<open>The HTTP layer around a handler\<close>





section \<open>Example inputs\<close>

text \<open>The \<open>ImportError\<close> of a module that is not found.\<close>

definition ImportError :: "string \<Rightarrow> pyexc" where
  "ImportError module_name =
     mk_exc ''ImportError'' [''StandardError'', ''Exception'', ''BaseException'']
       (''No module named '' @ module_name)"

text \<open>
  Service modules: \<open>hello\<close> and \<open>_diags\<close> as in the repository; a module with a syntax
  error; a module whose \<open>_init_\<close> raises and which has no route table; a module with a
  route that is no regular expression; a module without a route table; any other
  module is not found. \<open>re.compile\<close> rejects the patterns with an opening parenthesis.
\<close>

definition ex_modules :: "string \<Rightarrow> pyexc + string py_module" where
  "ex_modules n =
     (if n = ''pycstbox.webservices.services.hello''
      then Inr \<lparr>mod_init = Some (Callable (\<lambda>settings. None)),
                mod_attrs = [(''handlers'', [(''/say'', ''SayHelloHandler'')])]\<rparr>
      else if n = ''pycstbox.webservices.services._diags''
      then Inr \<lparr>mod_init = Some (Callable (\<lambda>settings. None)),
                mod_attrs = [(''handlers'', [(''/hello'', ''HelloHandler''),
                                             (''/routes'', ''RoutesHandler'')])]\<rparr>
      else if n = ''pycstbox.webservices.services.badsyntax''
      then Inl (mk_exc ''SyntaxError'' [''StandardError'', ''Exception'', ''BaseException'']
                  ''invalid syntax'')
      else if n = ''pycstbox.webservices.services.badinit''
      then Inr \<lparr>mod_init = Some (Callable (\<lambda>settings. Some
                    (mk_exc ''ValueError'' [''StandardError'', ''Exception'', ''BaseException'']
                       ''no database''))),
                mod_attrs = []\<rparr>
      else if n = ''pycstbox.webservices.services.badroute''
      then Inr \<lparr>mod_init = None,
                mod_attrs = [(''handlers'', [(''/ok'', ''OkHandler''), (''/(x'', ''XHandler'')])]\<rparr>
      else if n = ''pycstbox.webservices.services.noroutes''
      then Inr \<lparr>mod_init = None, mod_attrs = []\<rparr>
      else Inl (ImportError n))"

definition ex_imports :: "string import_env" where
  "ex_imports =
     \<lparr>import_module = ex_modules,
      re_error = (\<lambda>p. if CHR ''('' \<in> set p then Some ''unbalanced parenthesis'' else None)\<rparr>"

text \<open>
  Entries of a services home: a plain file, a directory without manifest, a directory
  whose manifest has no \<open>label\<close>, and otherwise a directory with both files and a
  manifest that gives the label.
\<close>

definition ex_entry :: "string \<Rightarrow> string \<times> fs_node" where
  "ex_entry n =
     (n, if n = ''README'' then File
         else if n = ''incomplete'' then Dir [''__init__.py''] (Parsed [])
         else if n = ''broken''
         then Dir [''MANIFEST'', ''__init__.py''] (Parsed [(''service'', [(''mapping'', Inr ''handlers'')])])
         else Dir [''__init__.py'', ''MANIFEST''] (Parsed [(''service'', [(''label'', Inr n)])]))"

definition ex_home :: "string list \<Rightarrow> home_dir" where
  "ex_home names = \<lparr>home_path = ''/srv/services'', home_entries = map ex_entry names\<rparr>"

text \<open>
  A server with an empty services home that listens on port 0 (any free port), in an
  environment where the port can be bound and the event loop is stopped by SIGTERM.
\<close>

definition ex_env :: "string start_env" where
  "ex_env =
     \<lparr>imports_env = \<lparr>import_module = (\<lambda>n. Inl (ImportError n)), re_error = (\<lambda>p. None)\<rparr>,
      handler_name = (\<lambda>h. h),
      listen = (\<lambda>n. None),
      ioloop_start = (\<lambda>p. (Stopped, p))\<rparr>"

definition ex_server :: "string AppServer" where
  "ex_server =
     \<lparr>app_url_base = ''/api/'', port = 0, debug = False, services_attr = None,
      ioloop = False, handlers_attr = None,
      services_home = \<lparr>home_path = ''/opt/cstbox/services'', home_entries = []\<rparr>\<rparr>"

definition ex_process :: "string process" where
  "ex_process = \<lparr>lists = initial_lists ''InvalidRequest'', muted_requests = [], logged = []\<rparr>"








section \<open>Properties of route namespacing\<close>

lemma lstrip_split: "\<exists>j. s = replicate j c @ lstrip c s"
  unfolding lstrip_def
proof (induction s)
  case Nil
  show ?case by simp
next
  case (Cons a s)
  then obtain j where j: "s = replicate j c @ dropWhile (\<lambda>x. x = c) s" by blast
  show ?case
  proof (cases "a = c")
    case True
    have "a # s = replicate (Suc j) c @ dropWhile (\<lambda>x. x = c) (a # s)"
      using True j by simp
    then show ?thesis by blast
  next
    case False
    have "a # s = replicate 0 c @ dropWhile (\<lambda>x. x = c) (a # s)"
      using False by simp
    then show ?thesis by blast
  qed
qed

lemma rstrip_split: "\<exists>k. s = rstrip c s @ replicate k c"
proof -
  obtain j where j: "rev s = replicate j c @ lstrip c (rev s)"
    using lstrip_split by blast
  have "s = rev (rev s)" by simp
  also have "\<dots> = rev (lstrip c (rev s)) @ replicate j c"
    by (subst j) simp
  finally show ?thesis unfolding rstrip_def lstrip_def by blast
qed

lemma lstrip_no_lead: "takeWhile (\<lambda>x. x = c) (lstrip c s) = []"
  unfolding lstrip_def by (induction s) auto

lemma rstrip_no_trail: "takeWhile (\<lambda>x. x = c) (rev (rstrip c s)) = []"
  unfolding rstrip_def using lstrip_no_lead[of c "rev s"] by (simp add: lstrip_def)

lemma strip_one_agrees:
  "takeWhile (\<lambda>x. x = CHR ''/'') (spec_strip_one_leading pattern) = [] \<Longrightarrow>
     lstrip (CHR ''/'') pattern = spec_strip_one_leading pattern"
  unfolding lstrip_def spec_strip_one_leading_def
  by (cases pattern) (auto simp: takeWhile_eq_Nil_iff dropWhile_eq_self_iff split: if_splits)

text \<open>
  Claim C4, as stated: namespacing strips at most one leading separator from the local
  pattern. It fails on the local pattern \<open>//bar\<close>: the code removes both separators,
  where the removal of one would leave \<open>/api/foo//bar\<close>.
\<close>

theorem namespacing_strips_all_counterexample:
  "effective_url (url_base ''/api/'' ''foo'') ''//bar'' = ''/api/foo/bar''
   \<and> spec_effective_url (url_base ''/api/'' ''foo'') ''//bar'' = ''/api/foo//bar''"
  by (simp add: effective_url_def spec_effective_url_def spec_strip_one_leading_def url_base_def
      rstrip_def lstrip_def)

text \<open>
  Claim C4, amended: for every application URL base, plugin name and local pattern, the
  effective URL is the application URL base without its trailing separators, one
  separator, the plugin name, one separator, and the local pattern without its leading
  separators: every leading separator of the pattern (and every trailing one of the
  application base) is removed, so that nothing but the single inserted separator
  stands at each join. For a local pattern with at most one leading separator this is
  the removal of at most one separator that the specification describes.
\<close>

theorem namespacing_joins:
  "effective_url (url_base app service_name) pattern
     = rstrip (CHR ''/'') app @ ''/'' @ service_name @ ''/'' @ lstrip (CHR ''/'') pattern
   \<and> (\<exists>k. app = rstrip (CHR ''/'') app @ replicate k (CHR ''/''))
   \<and> (\<exists>j. pattern = replicate j (CHR ''/'') @ lstrip (CHR ''/'') pattern)
   \<and> takeWhile (\<lambda>x. x = CHR ''/'') (lstrip (CHR ''/'') pattern) = []
   \<and> takeWhile (\<lambda>x. x = CHR ''/'') (rev (rstrip (CHR ''/'') app)) = []
   \<and> (takeWhile (\<lambda>x. x = CHR ''/'') (spec_strip_one_leading pattern) = [] \<longrightarrow>
        effective_url (url_base app service_name) pattern
          = spec_effective_url (url_base app service_name) pattern)"
  using lstrip_split[of pattern "CHR ''/''"] rstrip_split[of app "CHR ''/''"]
    lstrip_no_lead[of "CHR ''/''" pattern] rstrip_no_trail[of "CHR ''/''" app]
    strip_one_agrees[of pattern]
  by (simp add: effective_url_def url_base_def spec_effective_url_def)

theorem namespacing_joins_witness:
  "takeWhile (\<lambda>x. x = CHR ''/'') (spec_strip_one_leading ''/bar'') = []
   \<and> effective_url (url_base ''/api/'' ''foo'') ''/bar'' = ''/api/foo/bar''
   \<and> spec_effective_url (url_base ''/api/'' ''foo'') ''/bar'' = ''/api/foo/bar''"
  using namespacing_joins[of "''/api/''" "''foo''" "''/bar''"]
  by (simp add: effective_url_def spec_effective_url_def spec_strip_one_leading_def url_base_def
      rstrip_def lstrip_def)

section \<open>Properties of the request handlers\<close>

lemma process_request_returns:
  "m h = (None, h1) \<Longrightarrow>
     process_request m h = (None, if finished h1 then h1 else h1\<lparr>headers_written := True\<rparr>)"
  by (simp add: process_request_def flush_def isinstance_def mk_exc_def)

lemma process_request_raises:
  "m h = (Some e, h1) \<Longrightarrow> isinstance e ''Exception'' \<Longrightarrow>
     process_request m h
       = (if isinstance e ''HTTPError''
          then (Some e, if logger h1 then h1\<lparr>log_calls := log_calls h1 @ [(ERROR, exc_str e)]\<rparr>
                        else h1)
          else exception_reply e
                 (if logger h1 then h1\<lparr>log_calls := log_calls h1 @ [(ERROR, exc_str e)]\<rparr>
                  else h1))"
  by (simp add: process_request_def Let_def)

lemma isinstance_write_after_finish:
  "isinstance write_after_finish ''Exception'' \<and> \<not> isinstance write_after_finish ''HTTPError''"
  by (simp add: isinstance_def write_after_finish_def mk_exc_def)

text \<open>
  Claim C5, as stated: on the fallback route a read answers 404 and creates and deletes
  delegate to the same answer. It fails for DELETE: \<open>InvalidRequest\<close> overrides
  \<open>do_get\<close> and \<open>do_post\<close> only, so a DELETE runs \<open>WSHandler.do_delete\<close> and answers
  501 with the not-implemented body.
\<close>

theorem fallback_delete_counterexample:
  "status (snd (get InvalidRequest (new_handler False))) = 404
   \<and> status (snd (delete InvalidRequest (new_handler False))) = 501
   \<and> write_buffer (snd (delete InvalidRequest (new_handler False)))
       = [JObject [(''message'', JString ''not yet implemented'')]]"
  by (simp add: get_def delete_def InvalidRequest_def WSHandler_def InvalidRequest_do_get_def
      process_request_returns set_status_def reply_not_implemented_def write_chunk_def
      new_handler_def)

text \<open>
  Claim C5, amended: for every request handled by the fallback handler, a read (GET)
  sets status 404 and writes nothing, and a create (POST) does exactly what the read
  does; a delete (DELETE), like a replace (PUT), gets the default reply of the base
  handler, status 501 with the body \<open>{"message": "not yet implemented"}\<close>. (The reply
  is flushed unless the response was finished before the call; on such a response the
  default reply cannot be written and the delete raises the error of \<open>write\<close>.)
\<close>

theorem fallback_replies:
  "get InvalidRequest h
     = (None, if finished h then h\<lparr>status := 404\<rparr>
              else h\<lparr>status := 404, headers_written := True\<rparr>)
   \<and> status (snd (get InvalidRequest h)) = 404
   \<and> write_buffer (snd (get InvalidRequest h)) = write_buffer h
   \<and> post InvalidRequest h = get InvalidRequest h
   \<and> (\<not> finished h \<longrightarrow>
        delete InvalidRequest h
          = (None, h\<lparr>status := 501,
                     write_buffer := write_buffer h @ [JObject [(''message'', JString ''not yet implemented'')]],
                     headers_written := True\<rparr>))
   \<and> (finished h \<longrightarrow>
        fst (delete InvalidRequest h) = Some write_after_finish
        \<and> write_buffer (snd (delete InvalidRequest h)) = write_buffer h)
   \<and> put InvalidRequest h = delete InvalidRequest h"
proof -
  have g: "get InvalidRequest h
     = (None, if finished h then h\<lparr>status := 404\<rparr>
              else h\<lparr>status := 404, headers_written := True\<rparr>)"
    by (simp add: get_def InvalidRequest_def WSHandler_def InvalidRequest_do_get_def
        process_request_returns set_status_def)
  have "InvalidRequest_do_post = InvalidRequest_do_get"
    by (rule ext) (simp add: InvalidRequest_do_post_def)
  then have p: "post InvalidRequest h = get InvalidRequest h"
    by (simp add: get_def post_def InvalidRequest_def WSHandler_def)
  have d1: "delete InvalidRequest h
          = (None, h\<lparr>status := 501,
                     write_buffer := write_buffer h @ [JObject [(''message'', JString ''not yet implemented'')]],
                     headers_written := True\<rparr>)" if "\<not> finished h"
  proof -
    have "reply_not_implemented h
            = (None, h\<lparr>status := 501,
                 write_buffer := write_buffer h @ [JObject [(''message'', JString ''not yet implemented'')]]\<rparr>)"
      using that by (simp add: reply_not_implemented_def write_chunk_def set_status_def)
    from process_request_returns[where m = reply_not_implemented and h = h, OF this]
    show ?thesis
      using that by (simp add: delete_def InvalidRequest_def WSHandler_def)
  qed
  have d2: "fst (delete InvalidRequest h) = Some write_after_finish
        \<and> write_buffer (snd (delete InvalidRequest h)) = write_buffer h" if "finished h"
  proof -
    have "reply_not_implemented h = (Some write_after_finish, h\<lparr>status := 501\<rparr>)"
      using that by (simp add: reply_not_implemented_def write_chunk_def set_status_def)
    from process_request_raises[where m = reply_not_implemented and h = h, OF this]
    show ?thesis
      using that isinstance_write_after_finish
      by (simp add: delete_def InvalidRequest_def WSHandler_def exception_reply_def
          write_chunk_def set_status_def Let_def)
  qed
  have u: "put InvalidRequest h = delete InvalidRequest h"
    by (simp add: put_def delete_def InvalidRequest_def WSHandler_def)
  show ?thesis using g p d1 d2 u by simp
qed

theorem fallback_replies_witness:
  "\<not> finished (new_handler False)
   \<and> delete InvalidRequest (new_handler False)
       = (None, (new_handler False)\<lparr>status := 501,
            write_buffer := [JObject [(''message'', JString ''not yet implemented'')]],
            headers_written := True\<rparr>)
   \<and> finished (finish (new_handler False))
   \<and> fst (delete InvalidRequest (finish (new_handler False))) = Some write_after_finish"
  using fallback_replies[of "new_handler False"] fallback_replies[of "finish (new_handler False)"]
  by (simp add: new_handler_def finish_def)





section \<open>Properties of the request logging\<close>

lemma muted_log_request:
  "set (muted_requests (log_request r p))
     = set (muted_requests p) \<union> (if muting r then {req_uri r} else {})"
  by (auto simp: log_request_def muting_def Let_def split: option.splits)

lemma muted_log_requests:
  "set (muted_requests (log_requests rs p))
     = set (muted_requests p) \<union> req_uri ` {r \<in> set rs. muting r}"
  unfolding log_requests_def
proof (induction rs arbitrary: p)
  case Nil
  show ?case by simp
next
  case (Cons r rs)
  show ?case
    unfolding fold_simps Cons.IH muted_log_request by auto
qed

lemma logged_log_request: "logged (log_request r p) = logged p @ emitted r p"
  by (simp add: emitted_def log_request_def Let_def)

lemma ex_take_nth:
  assumes "i \<le> length rs"
  shows "(\<exists>r \<in> set (take i rs). P r) \<longleftrightarrow> (\<exists>j<i. P (rs ! j))"
proof
  assume "\<exists>r \<in> set (take i rs). P r"
  then obtain r where r: "r \<in> set (take i rs)" "P r" by blast
  then obtain j where "j < length (take i rs)" "take i rs ! j = r"
    by (auto simp: in_set_conv_nth)
  then have "j < i" "rs ! j = r" using assms by simp_all
  then show "\<exists>j<i. P (rs ! j)" using r(2) by blast
next
  assume "\<exists>j<i. P (rs ! j)"
  then obtain j where j: "j < i" "P (rs ! j)" by blast
  have "take i rs ! j \<in> set (take i rs)"
    using j(1) assms by (intro nth_mem) simp
  then show "\<exists>r \<in> set (take i rs). P r" using j by auto
qed

lemma muted_prefix:
  assumes "muted_requests p0 = []" and "i \<le> length rs"
  shows "u \<in> set (muted_requests (log_requests (take i rs) p0))
           \<longleftrightarrow> (\<exists>j<i. muting (rs ! j) \<and> req_uri (rs ! j) = u)"
proof -
  have "u \<in> set (muted_requests (log_requests (take i rs) p0))
          \<longleftrightarrow> (\<exists>r \<in> set (take i rs). muting r \<and> req_uri r = u)"
    unfolding muted_log_requests using assms(1) by auto
  also have "\<dots> \<longleftrightarrow> (\<exists>j<i. muting (rs ! j) \<and> req_uri (rs ! j) = u)"
    using ex_take_nth[OF assms(2), of "\<lambda>r. muting r \<and> req_uri r = u"] .
  finally show ?thesis .
qed

text \<open>
  Claim C7: in a process that starts with no muted request and logs the completed
  requests \<open>rs\<close> in order, the log only grows by what each request emits, and for the
  request at any position \<open>i\<close>:
  \<^item> if its handler carries the mute marker, it completed with a status below 400 and
    no earlier request with the marker and a status below 400 had the same URI, it
    emits exactly the suppression warning followed by its line at level INFO;
  \<^item> if it completed with a status below 400 and an earlier request with the marker
    and a status below 400 had the same URI, it emits nothing and changes nothing;
  \<^item> if it completed with status 400 or above, it emits its line (at level WARNING
    below 500, ERROR from 500 on), whatever has been muted.
\<close>

theorem mute_logging:
  assumes "muted_requests p0 = []" and "i < length rs"
  shows "logged (log_request (rs ! i) (log_requests (take i rs) p0))
           = logged (log_requests (take i rs) p0)
               @ emitted (rs ! i) (log_requests (take i rs) p0)
       \<and> (muting (rs ! i) \<and> (\<forall>j<i. \<not> (muting (rs ! j) \<and> req_uri (rs ! j) = req_uri (rs ! i))) \<longrightarrow>
            emitted (rs ! i) (log_requests (take i rs) p0)
              = [mute_warning (req_uri (rs ! i)), (INFO, req_line (rs ! i))])
       \<and> (req_status (rs ! i) < 400
            \<and> (\<exists>j<i. muting (rs ! j) \<and> req_uri (rs ! j) = req_uri (rs ! i)) \<longrightarrow>
            log_request (rs ! i) (log_requests (take i rs) p0) = log_requests (take i rs) p0
            \<and> emitted (rs ! i) (log_requests (take i rs) p0) = [])
       \<and> (400 \<le> req_status (rs ! i) \<longrightarrow>
            emitted (rs ! i) (log_requests (take i rs) p0)
              = [(if req_status (rs ! i) < 500 then WARNING else ERROR, req_line (rs ! i))])"
proof -
  let ?p = "log_requests (take i rs) p0" and ?r = "rs ! i"
  have m: "req_uri ?r \<in> set (muted_requests ?p)
             \<longleftrightarrow> (\<exists>j<i. muting (rs ! j) \<and> req_uri (rs ! j) = req_uri ?r)"
    using muted_prefix[OF assms(1), of i rs "req_uri ?r"] assms(2) by simp
  have a: "logged (log_request ?r ?p) = logged ?p @ emitted ?r ?p"
    by (rule logged_log_request)
  have b: "emitted ?r ?p = [mute_warning (req_uri ?r), (INFO, req_line ?r)]"
    if "muting ?r" "\<forall>j<i. \<not> (muting (rs ! j) \<and> req_uri (rs ! j) = req_uri ?r)"
  proof -
    have "req_uri ?r \<notin> set (muted_requests ?p)" using m that(2) by blast
    then show ?thesis using that(1)
      by (simp add: emitted_def log_request_def muting_def mute_warning_def Let_def)
  qed
  have c: "log_request ?r ?p = ?p \<and> emitted ?r ?p = []"
    if "req_status ?r < 400" "\<exists>j<i. muting (rs ! j) \<and> req_uri (rs ! j) = req_uri ?r"
  proof -
    have "req_uri ?r \<in> set (muted_requests ?p)" using m that(2) by blast
    then show ?thesis using that(1) by (simp add: emitted_def log_request_def)
  qed
  have d: "emitted ?r ?p = [(if req_status ?r < 500 then WARNING else ERROR, req_line ?r)]"
    if "400 \<le> req_status ?r"
    using that by (simp add: emitted_def log_request_def)
  show ?thesis using a b c d by blast
qed

theorem mute_logging_witness:
  "emitted \<lparr>req_status = 200, req_uri = ''/api/n/poll'', req_disable_logging = Some True,
            req_line = ''200 GET /api/n/poll (127.0.0.1) 1.50ms''\<rparr>
      (log_requests [] \<lparr>lists = (\<lambda>r. [] :: unit rule list), muted_requests = [], logged = []\<rparr>)
     = [mute_warning ''/api/n/poll'', (INFO, ''200 GET /api/n/poll (127.0.0.1) 1.50ms'')]
   \<and> emitted \<lparr>req_status = 200, req_uri = ''/api/n/poll'', req_disable_logging = Some True,
            req_line = ''200 GET /api/n/poll (127.0.0.1) 1.25ms''\<rparr>
      (log_requests
         [\<lparr>req_status = 200, req_uri = ''/api/n/poll'', req_disable_logging = Some True,
            req_line = ''200 GET /api/n/poll (127.0.0.1) 1.50ms''\<rparr>]
         \<lparr>lists = (\<lambda>r. [] :: unit rule list), muted_requests = [], logged = []\<rparr>)
     = []
   \<and> emitted \<lparr>req_status = 500, req_uri = ''/api/n/poll'', req_disable_logging = Some True,
            req_line = ''500 GET /api/n/poll (127.0.0.1) 0.75ms''\<rparr>
      (log_requests
         [\<lparr>req_status = 200, req_uri = ''/api/n/poll'', req_disable_logging = Some True,
            req_line = ''200 GET /api/n/poll (127.0.0.1) 1.50ms''\<rparr>,
          \<lparr>req_status = 200, req_uri = ''/api/n/poll'', req_disable_logging = Some True,
            req_line = ''200 GET /api/n/poll (127.0.0.1) 1.25ms''\<rparr>]
         \<lparr>lists = (\<lambda>r. [] :: unit rule list), muted_requests = [], logged = []\<rparr>)
     = [(ERROR, ''500 GET /api/n/poll (127.0.0.1) 0.75ms'')]"
proof -
  let ?p0 = "\<lparr>lists = (\<lambda>r. [] :: unit rule list), muted_requests = [], logged = []\<rparr>"
  let ?rs = "[\<lparr>req_status = 200, req_uri = ''/api/n/poll'', req_disable_logging = Some True,
            req_line = ''200 GET /api/n/poll (127.0.0.1) 1.50ms''\<rparr>,
      \<lparr>req_status = 200, req_uri = ''/api/n/poll'', req_disable_logging = Some True,
            req_line = ''200 GET /api/n/poll (127.0.0.1) 1.25ms''\<rparr>,
      \<lparr>req_status = 500, req_uri = ''/api/n/poll'', req_disable_logging = Some True,
            req_line = ''500 GET /api/n/poll (127.0.0.1) 0.75ms''\<rparr>]"
  have m: "muted_requests ?p0 = []" by simp
  have "0 < length ?rs" by simp
  have "Suc 0 < length ?rs" by simp
  have "Suc (Suc 0) < length ?rs" by simp
  show ?thesis
    using mute_logging[OF m \<open>0 < length ?rs\<close>] mute_logging[OF m \<open>Suc 0 < length ?rs\<close>]
      mute_logging[OF m \<open>Suc (Suc 0) < length ?rs\<close>]
    by (simp add: muting_def)
qed

section \<open>Properties of the server life cycle\<close>

lemma fold_extend:
  "fold (\<lambda>service. list_extend r (handlers service)) services st
     = st(r := st r @ concat (map handlers services))"
  by (induction services arbitrary: st) (simp_all add: list_extend_def)

lemma start_guard: "ioloop (snd st) \<Longrightarrow> start env st = (Some already_started, st)"
  by (simp add: start_def start_begin_def)

lemma start_begin_sets:
  "start_begin env st = (None, p1, self1) \<Longrightarrow>
     ioloop self1 \<and> handlers_attr self1 = Some ToplevelHandlers"
  by (auto simp: start_begin_def setup_handlers_def Let_def
           split: if_splits prod.splits sum.splits option.splits)

lemma start_end_clears:
  "start_end ex st = (None, p', self') \<Longrightarrow> \<not> ioloop self'"
  by (auto simp: start_end_def split: loop_exit.splits)

lemma start_clears:
  "start env st = (None, p', self') \<Longrightarrow> \<not> ioloop self'"
  by (auto simp: start_def split: prod.splits option.splits dest: start_end_clears)

lemmas ex_start_defs =
  start_def start_begin_def start_end_def ex_env_def ex_server_def get_services_def
  discover_services_def effective_home_def service_names_def setup_handlers_def list_extend_def
  Let_def info_def

text \<open>
  Claim C9, as stated: once started, an instance can never be started again with
  success. It fails: when the event loop has been stopped, \<open>start\<close> resets
  \<open>self._ioloop\<close> to \<open>None\<close> before it returns, and a second call of \<open>start\<close> on the same
  instance passes the guard and runs to its end as the first did.
\<close>

theorem restart_counterexample:
  "fst (start ex_env (ex_process, ex_server)) = None
   \<and> fst (start ex_env (snd (start ex_env (ex_process, ex_server)))) = None"
  by (simp add: ex_start_defs)

text \<open>
  Claim C9, amended: calling \<open>start\<close> on an instance whose event loop is running
  (\<open>self._ioloop\<close> is set) fails with the already-started error and changes nothing;
  \<open>start\<close> enters the event loop with \<open>self._ioloop\<close> set, so this holds from the
  moment the loop is entered; and when \<open>start\<close> returns normally (the loop was
  stopped or interrupted from the keyboard) \<open>self._ioloop\<close> is cleared again, so the
  guard no longer refuses a later start.
\<close>

theorem start_guard_while_running:
  "(ioloop self \<longrightarrow> start env (p, self) = (Some already_started, p, self))
   \<and> (start_begin env (p, self) = (None, p1, self1) \<longrightarrow> ioloop self1)
   \<and> (start env (p, self) = (None, p', self') \<longrightarrow> \<not> ioloop self')"
  using start_guard[of "(p, self)" env] start_begin_sets[of env "(p, self)" p1 self1]
    start_clears[of env "(p, self)" p' self']
  by simp

theorem start_guard_while_running_witness:
  "ioloop (ex_server\<lparr>ioloop := True\<rparr>)
   \<and> start ex_env (ex_process, ex_server\<lparr>ioloop := True\<rparr>)
       = (Some already_started, ex_process, ex_server\<lparr>ioloop := True\<rparr>)
   \<and> fst (start_begin ex_env (ex_process, ex_server)) = None
   \<and> ioloop (snd (snd (start_begin ex_env (ex_process, ex_server))))
   \<and> fst (start ex_env (ex_process, ex_server)) = None
   \<and> \<not> ioloop (snd (snd (start ex_env (ex_process, ex_server))))"
proof -
  have a: "ioloop (ex_server\<lparr>ioloop := True\<rparr>)" by simp
  have b: "fst (start_begin ex_env (ex_process, ex_server)) = None"
    by (simp add: ex_start_defs)
  have c: "fst (start ex_env (ex_process, ex_server)) = None"
    by (simp add: ex_start_defs)
  have b': "start_begin ex_env (ex_process, ex_server)
              = (None, fst (snd (start_begin ex_env (ex_process, ex_server))),
                 snd (snd (start_begin ex_env (ex_process, ex_server))))"
    using b by (simp add: prod_eq_iff)
  have c': "start ex_env (ex_process, ex_server)
              = (None, fst (snd (start ex_env (ex_process, ex_server))),
                 snd (snd (start ex_env (ex_process, ex_server))))"
    using c by (simp add: prod_eq_iff)
  show ?thesis
    using a b c b' c'
      start_guard_while_running[of "ex_server\<lparr>ioloop := True\<rparr>" ex_env ex_process]
      start_guard_while_running[of ex_server ex_env ex_process
        "fst (snd (start_begin ex_env (ex_process, ex_server)))"
        "snd (snd (start_begin ex_env (ex_process, ex_server)))"
        "fst (snd (start ex_env (ex_process, ex_server)))"
        "snd (snd (start ex_env (ex_process, ex_server)))"]
    by blast
qed

text \<open>
  Claim C10: \<open>_setup_handlers\<close> returns the reference to the class-level list
  \<open>toplevel_handlers\<close>; in the store shared by all instances that list is extended in
  place by the rules of every service, in order, and then by the fallback rules, which
  stay as they are; a second assembly appends the rules of the services and the
  fallback rules once more to the same list; and an instance that has entered its
  event loop holds that same reference as its handler table.
\<close>

theorem setup_handlers_shared:
  "snd (setup_handlers st services) = ToplevelHandlers
   \<and> fst (setup_handlers st services) ToplevelHandlers
       = st ToplevelHandlers @ concat (map handlers services) @ st FallbackHandlers
   \<and> fst (setup_handlers st services) FallbackHandlers = st FallbackHandlers
   \<and> fst (setup_handlers (fst (setup_handlers st services)) services) ToplevelHandlers
       = st ToplevelHandlers @ concat (map handlers services) @ st FallbackHandlers
           @ concat (map handlers services) @ st FallbackHandlers
   \<and> (start_begin env (p, self) = (None, p1, self1) \<longrightarrow>
         handlers_attr self1 = Some ToplevelHandlers)"
  using start_begin_sets[of env "(p, self)" p1 self1]
  by (simp add: setup_handlers_def Let_def fold_extend list_extend_def)

theorem setup_handlers_shared_witness:
  "fst (start_begin ex_env (ex_process, ex_server)) = None
   \<and> handlers_attr (snd (snd (start_begin ex_env (ex_process, ex_server)))) = Some ToplevelHandlers
   \<and> lists (fst (snd (start_begin ex_env (ex_process, ex_server)))) ToplevelHandlers
       = [(''/.*'', ''InvalidRequest'')]
   \<and> lists (fst (snd (start ex_env (snd (start ex_env (ex_process, ex_server)))))) ToplevelHandlers
       = [(''/.*'', ''InvalidRequest''), (''/.*'', ''InvalidRequest'')]"
proof -
  have b: "fst (start_begin ex_env (ex_process, ex_server)) = None"
    by (simp add: ex_start_defs)
  have b': "start_begin ex_env (ex_process, ex_server)
              = (None, fst (snd (start_begin ex_env (ex_process, ex_server))),
                 snd (snd (start_begin ex_env (ex_process, ex_server))))"
    using b by (simp add: prod_eq_iff)
  have l: "lists (fst (snd (start_begin ex_env (ex_process, ex_server)))) ToplevelHandlers
             = [(''/.*'', ''InvalidRequest'')]"
    by (simp add: ex_start_defs ex_process_def initial_lists_def)
  have l2: "lists (fst (snd (start ex_env (snd (start ex_env (ex_process, ex_server))))))
               ToplevelHandlers
             = [(''/.*'', ''InvalidRequest''), (''/.*'', ''InvalidRequest'')]"
    by (simp add: ex_start_defs ex_process_def initial_lists_def)
  show ?thesis
    using b b' l l2
      setup_handlers_shared[of "lists ex_process" "[]" ex_env ex_process ex_server
        "fst (snd (start_begin ex_env (ex_process, ex_server)))"
        "snd (snd (start_begin ex_env (ex_process, ex_server)))"]
    by blast
qed

section \<open>Properties of the discovery\<close>

lemma discover_loop_append:
  "discover_loop env b home (pre @ rest) st
     = (case discover_loop env b home pre st of
          (lg, Inl e) \<Rightarrow> (lg, Inl e)
        | (lg, Inr svcs) \<Rightarrow> discover_loop env b home rest (lg, svcs))"
proof (induction pre arbitrary: st)
  case Nil
  show ?case by simp
next
  case (Cons n pre)
  show ?case
    by (cases "discover_step env b home n st" rule: prod.exhaust)
       (auto simp: Cons.IH split: sum.splits prod.splits)
qed

lemma load_service_name:
  "load_service env b n lbl attr mf lg = (lg', Inr d) \<Longrightarrow> name d = n"
  by (auto simp: load_service_def split: sum.splits prod.splits option.splits)

lemma after_load_cases:
  "after_load n svcs r = (lg', Inr svcs') \<Longrightarrow>
     svcs' = svcs \<or> (\<exists>d. snd r = Inr d \<and> svcs' = svcs @ [d])"
  by (cases r) (auto simp: after_load_def split: sum.splits if_splits)

lemma discover_step_shape:
  assumes "discover_step env b home n st = (lg', Inr svcs')"
  shows "svcs' = snd st
       \<or> (\<exists>d files manifest. svcs' = snd st @ [d] \<and> name d = n
            \<and> map_of (home_entries home) n = Some (Dir files manifest)
            \<and> set marker_files \<subseteq> set files)"
proof (cases "map_of (home_entries home) n")
  case None
  then show ?thesis using assms by (simp add: discover_step_def Let_def)
next
  case (Some node)
  show ?thesis
  proof (cases node)
    case File
    then show ?thesis using assms Some by (simp add: discover_step_def Let_def)
  next
    case (Dir files manifest)
    show ?thesis
    proof (cases "set marker_files \<subseteq> set files")
      case False
      then show ?thesis using assms Some Dir by (simp add: discover_step_def Let_def)
    next
      case True
      show ?thesis
      proof (cases "read_manifest manifest")
        case (Inl e)
        then show ?thesis using assms Some Dir True by (simp add: discover_step_def Let_def)
      next
        case (Inr t)
        obtain mf lbl attr where t: "t = (mf, lbl, attr)" by (cases t)
        let ?r = "load_service env b n lbl attr mf
                    (fst st @ [(INFO, ''analysing directory '' @ path_join (home_path home) n @ ''...''),
                               (INFO, ''... valid service location''),
                               (INFO, ''... loading service '' @ [CHR 0x27] @ n
                                      @ [CHR 0x27] @ '' from module '' @ [CHR 0x27]
                                      @ SERVICES_PACKAGE_NAME @ ''.'' @ n
                                      @ [CHR 0x27] @ ''...'')])"
        have al: "after_load n (snd st) ?r = (lg', Inr svcs')"
          using assms Some Dir True Inr t by (simp add: discover_step_def Let_def)
        from after_load_cases[OF al] show ?thesis
        proof
          assume "svcs' = snd st" then show ?thesis by simp
        next
          assume "\<exists>d. snd ?r = Inr d \<and> svcs' = snd st @ [d]"
          then obtain d where d: "snd ?r = Inr d" "svcs' = snd st @ [d]" by blast
          have "?r = (fst ?r, Inr d)" using d(1) by (simp add: prod_eq_iff)
          then have "name d = n" by (rule load_service_name)
          then show ?thesis using d(2) Some Dir True by simp
        qed
      qed
    qed
  qed
qed

lemma subseq_sorted:
  "subseq xs ys \<Longrightarrow> sorted ys \<Longrightarrow> sorted (xs :: 'a :: linorder list)"
proof (induction rule: list_emb.induct)
  case (list_emb_Nil ys)
  show ?case by simp
next
  case (list_emb_Cons xs ys y)
  then show ?case by simp
next
  case (list_emb_Cons2 x y xs ys)
  have "set xs \<subseteq> set ys"
    using list_emb_set[OF list_emb_Cons2.hyps(2)] by auto
  then show ?case using list_emb_Cons2 by auto
qed



lemma discover_services_upto:
  "discover_services env self home_arg lg
     = discover_upto env self home_arg lg (service_names (effective_home self home_arg))"
  by (simp add: discover_services_def discover_upto_def Let_def)

lemma discover_upto_append:
  "discover_upto env self home_arg lg (pre @ rest)
     = (case discover_upto env self home_arg lg pre of
          (lg1, Inl e) \<Rightarrow> (lg1, Inl e)
        | (lg1, Inr svcs) \<Rightarrow>
            discover_loop env (app_url_base self) (effective_home self home_arg) rest (lg1, svcs))"
  by (simp add: discover_upto_def Let_def discover_loop_append)

lemma discover_loop_shape:
  "discover_loop env b home ns st = (lg', Inr out) \<Longrightarrow>
     \<exists>ks. out = snd st @ ks \<and> subseq (map name ks) ns
        \<and> (\<forall>d \<in> set ks. \<exists>files manifest.
              map_of (home_entries home) (name d) = Some (Dir files manifest)
              \<and> set marker_files \<subseteq> set files)"
proof (induction ns arbitrary: st)
  case Nil
  then show ?case by auto
next
  case (Cons n ns)
  obtain lg1 r where step: "discover_step env b home n st = (lg1, r)"
    by (cases "discover_step env b home n st")
  show ?case
  proof (cases r)
    case (Inl e)
    then show ?thesis using Cons.prems step by simp
  next
    case (Inr svcs1)
    have rest: "discover_loop env b home ns (lg1, svcs1) = (lg', Inr out)"
      using Cons.prems step Inr by simp
    from Cons.IH[OF rest] obtain ks where ks: "out = svcs1 @ ks" "subseq (map name ks) ns"
      "\<forall>d \<in> set ks. \<exists>files manifest.
          map_of (home_entries home) (name d) = Some (Dir files manifest)
          \<and> set marker_files \<subseteq> set files"
      by auto
    from discover_step_shape[OF step[unfolded Inr]] show ?thesis
    proof
      assume "svcs1 = snd st"
      then have "out = snd st @ ks" "subseq (map name ks) (n # ns)"
        using ks by auto
      then show ?thesis using ks(3) by blast
    next
      assume "\<exists>d files manifest. svcs1 = snd st @ [d] \<and> name d = n
            \<and> map_of (home_entries home) n = Some (Dir files manifest)
            \<and> set marker_files \<subseteq> set files"
      then obtain d files manifest where d: "svcs1 = snd st @ [d]" "name d = n"
        "map_of (home_entries home) n = Some (Dir files manifest)"
        "set marker_files \<subseteq> set files" by blast
      have "out = snd st @ (d # ks)" using ks(1) d(1) by simp
      moreover have "subseq (map name (d # ks)) (n # ns)" using ks(2) d(2) by simp
      moreover have "\<forall>d' \<in> set (d # ks). \<exists>files manifest.
          map_of (home_entries home) (name d') = Some (Dir files manifest)
          \<and> set marker_files \<subseteq> set files"
        using ks(3) d(2,3,4) by auto
      ultimately show ?thesis by blast
    qed
  qed
qed

lemmas ex_discover_defs =
  discover_services_def discover_upto_def effective_home_def service_names_def ex_home_def
  ex_entry_def ex_imports_def ex_modules_def ex_server_def isdir_def

text \<open>
  Claim C8: whenever the discovery returns a list of descriptors, the names of the
  descriptors are in ascending order, they are a subsequence of the sorted list of the
  sub-directories of the services home (the order of insertion is the order of the
  traversal), and every descriptor bears the name of a sub-directory whose listing
  contains both \<open>MANIFEST\<close> and \<open>__init__.py\<close>.
\<close>

theorem discovery_sorted_and_marked:
  assumes "discover_services env self home_arg lg = (lg', Inr services)"
  shows "sorted (map name services)
       \<and> subseq (map name services) (service_names (effective_home self home_arg))
       \<and> (\<forall>d \<in> set services. \<exists>files manifest.
             map_of (home_entries (effective_home self home_arg)) (name d)
               = Some (Dir files manifest)
             \<and> MANIFEST_FILE_NAME \<in> set files \<and> ''__init__.py'' \<in> set files)"
proof -
  let ?home = "effective_home self home_arg"
  have "discover_loop env (app_url_base self) ?home (service_names ?home)
          (lg @ [(DEBUG, ''discovering services stored in '' @ home_path ?home)], [])
        = (lg', Inr services)"
    using assms by (simp add: discover_services_def Let_def)
  from discover_loop_shape[OF this]
  have sub: "subseq (map name services) (service_names ?home)"
    and mark: "\<forall>d \<in> set services. \<exists>files manifest.
              map_of (home_entries ?home) (name d) = Some (Dir files manifest)
              \<and> set marker_files \<subseteq> set files"
    by auto
  have "sorted (service_names ?home)" by (simp add: service_names_def)
  with sub have "sorted (map name services)" by (rule subseq_sorted)
  moreover have "\<forall>d \<in> set services. \<exists>files manifest.
             map_of (home_entries ?home) (name d) = Some (Dir files manifest)
             \<and> MANIFEST_FILE_NAME \<in> set files \<and> ''__init__.py'' \<in> set files"
    using mark by (simp add: marker_files_def)
  ultimately show ?thesis using sub by blast
qed

theorem discovery_sorted_and_marked_witness:
  "snd (discover_services ex_imports ex_server
          (Some (ex_home [''hello'', ''README'', ''incomplete'', ''_diags''])) [])
     = Inr [\<lparr>name = ''_diags'', label = ''_diags'',
              handlers = [(''/api/_diags/hello'', ''HelloHandler''),
                          (''/api/_diags/routes'', ''RoutesHandler'')]\<rparr>,
            \<lparr>name = ''hello'', label = ''hello'',
              handlers = [(''/api/hello/say'', ''SayHelloHandler'')]\<rparr>]
   \<and> sorted [''_diags'', ''hello'']
   \<and> subseq [''_diags'', ''hello''] [''_diags'', ''hello'', ''incomplete'']"
proof -
  let ?run = "discover_services ex_imports ex_server
                (Some (ex_home [''hello'', ''README'', ''incomplete'', ''_diags''])) []"
  let ?ds = "[\<lparr>name = ''_diags'', label = ''_diags'',
              handlers = [(''/api/_diags/hello'', ''HelloHandler''),
                          (''/api/_diags/routes'', ''RoutesHandler'')]\<rparr>,
            \<lparr>name = ''hello'', label = ''hello'',
              handlers = [(''/api/hello/say'', ''SayHelloHandler'')]\<rparr>]"
  have r: "snd ?run = Inr ?ds" by code_simp
  then have r': "?run = (fst ?run, Inr ?ds)" by (simp add: prod_eq_iff)
  have n: "service_names (effective_home ex_server
             (Some (ex_home [''hello'', ''README'', ''incomplete'', ''_diags''])))
           = [''_diags'', ''hello'', ''incomplete'']"
    by (simp add: ex_discover_defs)
  show ?thesis
    using discovery_sorted_and_marked[OF r'] r n by simp
qed

lemma read_manifest_no_section:
  "map_of secs MANIFEST_MAIN_SECTION = None \<Longrightarrow>
     read_manifest (Parsed secs) = Inl (NoSectionError MANIFEST_MAIN_SECTION)"
  by (simp add: read_manifest_def cfg_read_def cfg_get_def)

lemma read_manifest_no_label:
  "map_of secs MANIFEST_MAIN_SECTION = Some d \<Longrightarrow> map_of d ''label'' = None \<Longrightarrow>
     read_manifest (Parsed secs) = Inl (NoOptionError ''label'' MANIFEST_MAIN_SECTION)"
  by (simp add: read_manifest_def cfg_read_def cfg_get_def services_cfg_defaults_def
      map_add_def[symmetric] map_add_Some_iff split: option.splits)

lemma discover_step_manifest_error:
  assumes "map_of (home_entries home) n = Some (Dir files manifest)"
    and "set marker_files \<subseteq> set files"
    and "read_manifest manifest = Inl e"
  shows "discover_step env b home n st
           = (fst st @ [(INFO, ''analysing directory '' @ path_join (home_path home) n @ ''...''),
                        (INFO, ''... valid service location'')], Inl e)"
  using assms by (simp add: discover_step_def Let_def)

lemma discover_step_loaded:
  assumes "map_of (home_entries home) n = Some (Dir files manifest)"
    and "set marker_files \<subseteq> set files"
    and "read_manifest manifest = Inr (mf, lbl, attr)"
  shows "discover_step env b home n st
           = after_load n (snd st)
               (load_service env b n lbl attr mf
                  (fst st @ [(INFO, ''analysing directory '' @ path_join (home_path home) n @ ''...''),
                             (INFO, ''... valid service location''),
                             (INFO, ''... loading service '' @ [CHR 0x27] @ n
                                      @ [CHR 0x27] @ '' from module '' @ [CHR 0x27]
                                      @ SERVICES_PACKAGE_NAME @ ''.'' @ n
                                      @ [CHR 0x27] @ ''...'')]))"
  using assms by (simp add: discover_step_def Let_def)

lemma invoke_init_log:
  "invoke_init mf i lg = (lg @ fst (invoke_init mf i []), snd (invoke_init mf i []))"
  by (simp add: invoke_init_def Let_def split: option.splits init_func.splits sum.splits)

lemma expand_rules_invalid:
  "\<exists>rule \<in> set mapping. re_err (effective_url ub (fst rule)) \<noteq> None \<Longrightarrow>
     \<exists>url msg. re_err url = Some msg \<and> expand_rules re_err ub mapping hs = Inl (InvalidRoute url msg)"
proof (induction mapping arbitrary: hs)
  case Nil
  then show ?case by simp
next
  case (Cons rule mapping)
  show ?case
  proof (cases "re_err (effective_url ub (fst rule))")
    case (Some msg)
    then show ?thesis by auto
  next
    case None
    then have "\<exists>rule \<in> set mapping. re_err (effective_url ub (fst rule)) \<noteq> None"
      using Cons.prems by auto
    from Cons.IH[OF this] show ?thesis using None by simp
  qed
qed

lemma load_service_import_error:
  "import_module env (SERVICES_PACKAGE_NAME @ ''.'' @ n) = Inl e \<Longrightarrow>
     load_service env b n lbl attr mf lg = (lg, Inl e)"
  by (simp add: load_service_def)

lemma load_service_no_attribute:
  assumes "import_module env (SERVICES_PACKAGE_NAME @ ''.'' @ n) = Inr module"
    and "snd (invoke_init mf (mod_init module) []) = None"
    and "map_of (mod_attrs module) attr = None"
  shows "load_service env b n lbl attr mf lg
           = (lg @ fst (invoke_init mf (mod_init module) []), Inl (AttributeError attr))"
  using assms
  by (subst load_service_def, subst invoke_init_log) (simp add: getattr_def)

lemma load_service_invalid_route:
  assumes "import_module env (SERVICES_PACKAGE_NAME @ ''.'' @ n) = Inr module"
    and "snd (invoke_init mf (mod_init module) []) = None"
    and "map_of (mod_attrs module) attr = Some mapping"
    and "\<exists>rule \<in> set mapping. re_error env (effective_url (url_base b n) (fst rule)) \<noteq> None"
  shows "\<exists>url msg. re_error env url = Some msg
           \<and> load_service env b n lbl attr mf lg
               = (lg @ fst (invoke_init mf (mod_init module) []), Inl (InvalidRoute url msg))"
proof -
  from expand_rules_invalid[OF assms(4), of "[]"] obtain url msg
    where u: "re_error env url = Some msg"
      "expand_rules (re_error env) (url_base b n) mapping [] = Inl (InvalidRoute url msg)"
    by blast
  have "load_service env b n lbl attr mf lg
          = (lg @ fst (invoke_init mf (mod_init module) []), Inl (InvalidRoute url msg))"
    using assms(1,2,3) u(2)
    by (subst load_service_def, subst invoke_init_log) (simp add: getattr_def)
  then show ?thesis using u(1) by blast
qed

lemma after_load_fatal:
  "isinstance e ''ImportError'' \<or> isinstance e ''AttributeError'' \<Longrightarrow>
     after_load n svcs (lg, Inl e) = (lg @ [(ERROR, ''['' @ exc_class e @ ''] '' @ exc_str e)], Inl e)"
  by (simp add: after_load_def)

lemma isinstance_AttributeError: "isinstance (AttributeError a) ''AttributeError''"
  by (simp add: isinstance_def AttributeError_def mk_exc_def)

lemma after_load_invalid_route:
  "after_load n svcs (lg, Inl (InvalidRoute url msg))
     = (lg @ [(ERROR, exc_str (InvalidRoute url msg)),
              (ERROR, ''*** Could not load service '' @ [CHR 0x27] @ n
                        @ [CHR 0x27] @ '' because of previous exception'')], Inr svcs)"
  by (simp add: after_load_def isinstance_def InvalidRoute_def mk_exc_def)


lemma discover_services_split:
  assumes "service_names (effective_home self home_arg) = pre @ n # rest"
    and "discover_upto env self home_arg lg pre = (lg1, Inr svcs)"
  shows "discover_services env self home_arg lg
           = (case discover_step env (app_url_base self) (effective_home self home_arg) n (lg1, svcs) of
                (lg2, Inl e) \<Rightarrow> (lg2, Inl e)
              | (lg2, Inr svcs2) \<Rightarrow>
                  discover_loop env (app_url_base self) (effective_home self home_arg) rest (lg2, svcs2))"
    and "discover_upto env self home_arg lg (pre @ [n])
           = discover_step env (app_url_base self) (effective_home self home_arg) n (lg1, svcs)"
proof -
  show "discover_services env self home_arg lg
           = (case discover_step env (app_url_base self) (effective_home self home_arg) n (lg1, svcs) of
                (lg2, Inl e) \<Rightarrow> (lg2, Inl e)
              | (lg2, Inr svcs2) \<Rightarrow>
                  discover_loop env (app_url_base self) (effective_home self home_arg) rest (lg2, svcs2))"
    unfolding discover_services_upto assms(1) discover_upto_append assms(2) by simp
  show "discover_upto env self home_arg lg (pre @ [n])
           = discover_step env (app_url_base self) (effective_home self home_arg) n (lg1, svcs)"
    unfolding discover_upto_append assms(2)
    by (cases "discover_step env (app_url_base self) (effective_home self home_arg) n (lg1, svcs)")
       (auto split: sum.splits)
qed

text \<open>
  Claim C1, as stated: a manifest without \<open>label\<close> excludes that plugin only and the
  discovery still yields the other descriptors. It fails: the manifest is read before
  the \<open>try\<close> statement, so with the valid plugins \<open>_diags\<close> and \<open>hello\<close> and the
  directory \<open>broken\<close>, whose manifest has no \<open>label\<close>, the discovery call ends with
  \<open>NoOptionError\<close> and returns no descriptor at all.
\<close>

theorem manifest_error_counterexample:
  "snd (discover_services ex_imports ex_server (Some (ex_home [''hello'', ''broken'', ''_diags''])) [])
     = Inl (NoOptionError ''label'' ''service'')"
  by code_simp

text \<open>
  Claim C1, amended: in a discovery run that reaches a candidate directory (the
  directories before it in the sorted order were processed without an error leaving
  the run) which passes the marker-file check and whose manifest lacks the main section
  or the key \<open>label\<close> in it, the error raised by reading the manifest
  (\<open>NoSectionError\<close>, \<open>NoOptionError\<close>) leaves the discovery call: the run ends there
  with that error, returns no list, and has logged nothing about the failure after the
  line that announces a valid service location.
\<close>

theorem manifest_error_aborts:
  assumes "service_names (effective_home self home_arg) = pre @ n # rest"
    and "discover_upto env self home_arg lg pre = (lg1, Inr svcs)"
    and "map_of (home_entries (effective_home self home_arg)) n = Some (Dir files (Parsed secs))"
    and "set marker_files \<subseteq> set files"
    and "map_of secs MANIFEST_MAIN_SECTION = None
         \<or> (\<exists>d. map_of secs MANIFEST_MAIN_SECTION = Some d \<and> map_of d ''label'' = None)"
  shows "discover_services env self home_arg lg
           = (lg1 @ [(INFO, ''analysing directory ''
                             @ path_join (home_path (effective_home self home_arg)) n @ ''...''),
                     (INFO, ''... valid service location'')],
              Inl (if map_of secs MANIFEST_MAIN_SECTION = None
                   then NoSectionError MANIFEST_MAIN_SECTION
                   else NoOptionError ''label'' MANIFEST_MAIN_SECTION))"
proof -
  let ?e = "if map_of secs MANIFEST_MAIN_SECTION = None
            then NoSectionError MANIFEST_MAIN_SECTION
            else NoOptionError ''label'' MANIFEST_MAIN_SECTION"
  have "read_manifest (Parsed secs) = Inl ?e"
    using assms(5) read_manifest_no_section[of secs] read_manifest_no_label[of secs] by auto
  from discover_step_manifest_error[OF assms(3,4) this, of env "app_url_base self" "(lg1, svcs)"]
  have step: "discover_step env (app_url_base self) (effective_home self home_arg) n (lg1, svcs)
                = (lg1 @ [(INFO, ''analysing directory ''
                             @ path_join (home_path (effective_home self home_arg)) n @ ''...''),
                     (INFO, ''... valid service location'')], Inl ?e)"
    by (simp only: fst_conv)
  show ?thesis
    unfolding discover_services_split(1)[OF assms(1,2)] step
    by (simp only: prod.case sum.case)
qed

theorem manifest_error_aborts_witness:
  "discover_services ex_imports ex_server (Some (ex_home [''hello'', ''broken'', ''_diags''])) []
     = (fst (discover_upto ex_imports ex_server (Some (ex_home [''hello'', ''broken'', ''_diags'']))
               [] [''_diags''])
          @ [(INFO, ''analysing directory /srv/services/broken...''),
             (INFO, ''... valid service location'')],
        Inl (NoOptionError ''label'' ''service''))"
proof -
  let ?h = "Some (ex_home [''hello'', ''broken'', ''_diags''])"
  let ?d = "\<lparr>name = ''_diags'', label = ''_diags'',
              handlers = [(''/api/_diags/hello'', ''HelloHandler''),
                          (''/api/_diags/routes'', ''RoutesHandler'')]\<rparr>"
  have names: "service_names (effective_home ex_server ?h) = [''_diags''] @ ''broken'' # [''hello'']"
    by (simp add: ex_discover_defs)
  have "snd (discover_upto ex_imports ex_server ?h [] [''_diags'']) = Inr [?d]"
    by code_simp
  then have upto: "discover_upto ex_imports ex_server ?h [] [''_diags'']
                     = (fst (discover_upto ex_imports ex_server ?h [] [''_diags'']), Inr [?d])"
    by (simp add: prod_eq_iff)
  have dir: "map_of (home_entries (effective_home ex_server ?h)) ''broken''
               = Some (Dir [''MANIFEST'', ''__init__.py'']
                        (Parsed [(''service'', [(''mapping'', Inr ''handlers'')])]))"
    by (simp add: ex_discover_defs)
  have marker: "set marker_files \<subseteq> set [''MANIFEST'', ''__init__.py'']"
    by (simp add: marker_files_def MANIFEST_FILE_NAME_def)
  have lacks: "map_of [(''service'', [(''mapping'', Inr ''handlers'')])] MANIFEST_MAIN_SECTION = None
         \<or> (\<exists>d. map_of [(''service'', [(''mapping'', Inr ''handlers'')])] MANIFEST_MAIN_SECTION = Some d
                \<and> map_of d ''label'' = None)"
    by (simp add: MANIFEST_MAIN_SECTION_def)
  have p: "path_join (home_path (effective_home ex_server ?h)) ''broken'' = ''/srv/services/broken''"
    by (simp add: ex_discover_defs path_join_def)
  show ?thesis
    using manifest_error_aborts[OF names upto dir marker lacks]
    by (simp add: p MANIFEST_MAIN_SECTION_def)
qed

text \<open>
  Claim C2, as stated: whenever the import of a plugin module fails, or the module
  lacks the attribute named by the manifest, the error leaves the discovery call. It
  fails in two ways: a module whose import raises another exception than
  \<open>ImportError\<close> (here a \<open>SyntaxError\<close>) is logged and skipped, and so is a module
  that lacks the route table but whose \<open>_init_\<close> hook raises (here a \<open>ValueError\<close>)
  before the attribute is looked up. The discovery returns the two other descriptors.
\<close>

theorem load_error_counterexample:
  "import_module ex_imports ''pycstbox.webservices.services.badsyntax''
     = Inl (mk_exc ''SyntaxError'' [''StandardError'', ''Exception'', ''BaseException'']
              ''invalid syntax'')
   \<and> (case import_module ex_imports ''pycstbox.webservices.services.badinit'' of
         Inl e \<Rightarrow> Inl e | Inr m \<Rightarrow> getattr m ''handlers'') = Inl (AttributeError ''handlers'')
   \<and> snd (discover_services ex_imports ex_server
            (Some (ex_home [''hello'', ''badsyntax'', ''badinit'', ''_diags''])) [])
       = Inr [\<lparr>name = ''_diags'', label = ''_diags'',
                handlers = [(''/api/_diags/hello'', ''HelloHandler''),
                            (''/api/_diags/routes'', ''RoutesHandler'')]\<rparr>,
              \<lparr>name = ''hello'', label = ''hello'',
                handlers = [(''/api/hello/say'', ''SayHelloHandler'')]\<rparr>]"
proof -
  have "import_module ex_imports ''pycstbox.webservices.services.badsyntax''
          = Inl (mk_exc ''SyntaxError'' [''StandardError'', ''Exception'', ''BaseException'']
                   ''invalid syntax'')"
    by (simp add: ex_imports_def ex_modules_def)
  moreover have "(case import_module ex_imports ''pycstbox.webservices.services.badinit'' of
         Inl e \<Rightarrow> Inl e | Inr m \<Rightarrow> getattr m ''handlers'') = Inl (AttributeError ''handlers'')"
    by (simp add: ex_imports_def ex_modules_def getattr_def)
  moreover have "snd (discover_services ex_imports ex_server
            (Some (ex_home [''hello'', ''badsyntax'', ''badinit'', ''_diags''])) [])
       = Inr [\<lparr>name = ''_diags'', label = ''_diags'',
                handlers = [(''/api/_diags/hello'', ''HelloHandler''),
                            (''/api/_diags/routes'', ''RoutesHandler'')]\<rparr>,
              \<lparr>name = ''hello'', label = ''hello'',
                handlers = [(''/api/hello/say'', ''SayHelloHandler'')]\<rparr>]"
    by code_simp
  ultimately show ?thesis by blast
qed

text \<open>
  Claim C2, amended: in a discovery run that reaches a candidate directory which
  passes the marker-file check and whose manifest is read, if importing the module
  raises an \<open>ImportError\<close> (or an \<open>AttributeError\<close>), or if the module is imported, its
  \<open>_init_\<close> hook, if any, returns normally and the module lacks the attribute named by
  the mapping key of the manifest, then the error leaves the discovery call, which ends
  there, and the last entry of the log is that error, logged as \<open>[class] message\<close>.
\<close>

theorem load_error_propagates:
  assumes "service_names (effective_home self home_arg) = pre @ n # rest"
    and "discover_upto env self home_arg lg pre = (lg1, Inr svcs)"
    and "map_of (home_entries (effective_home self home_arg)) n = Some (Dir files manifest)"
    and "set marker_files \<subseteq> set files"
    and "read_manifest manifest = Inr (mf, lbl, attr)"
    and "(import_module env (SERVICES_PACKAGE_NAME @ ''.'' @ n) = Inl e
            \<and> (isinstance e ''ImportError'' \<or> isinstance e ''AttributeError''))
         \<or> (\<exists>module. import_module env (SERVICES_PACKAGE_NAME @ ''.'' @ n) = Inr module
               \<and> snd (invoke_init mf (mod_init module) []) = None
               \<and> map_of (mod_attrs module) attr = None
               \<and> e = AttributeError attr)"
  shows "\<exists>entries. discover_services env self home_arg lg
           = (lg1 @ entries @ [(ERROR, ''['' @ exc_class e @ ''] '' @ exc_str e)], Inl e)"
proof -
  let ?home = "effective_home self home_arg"
  let ?lg3 = "lg1 @ [(INFO, ''analysing directory '' @ path_join (home_path ?home) n @ ''...''),
                     (INFO, ''... valid service location''),
                     (INFO, ''... loading service '' @ [CHR 0x27] @ n
                              @ [CHR 0x27] @ '' from module '' @ [CHR 0x27]
                              @ SERVICES_PACKAGE_NAME @ ''.'' @ n
                              @ [CHR 0x27] @ ''...'')]"
  have step: "discover_step env (app_url_base self) ?home n (lg1, svcs)
                = after_load n svcs (load_service env (app_url_base self) n lbl attr mf ?lg3)"
    using discover_step_loaded[OF assms(3,4,5), of env "app_url_base self" "(lg1, svcs)"] by simp
  from assms(6) obtain lg4 where
    ld: "load_service env (app_url_base self) n lbl attr mf ?lg3 = (?lg3 @ lg4, Inl e)"
    and fatal: "isinstance e ''ImportError'' \<or> isinstance e ''AttributeError''"
  proof
    assume a: "import_module env (SERVICES_PACKAGE_NAME @ ''.'' @ n) = Inl e
            \<and> (isinstance e ''ImportError'' \<or> isinstance e ''AttributeError'')"
    then have "load_service env (app_url_base self) n lbl attr mf ?lg3 = (?lg3 @ [], Inl e)"
      by (simp add: load_service_import_error)
    then show ?thesis using a that by blast
  next
    assume "\<exists>module. import_module env (SERVICES_PACKAGE_NAME @ ''.'' @ n) = Inr module
               \<and> snd (invoke_init mf (mod_init module) []) = None
               \<and> map_of (mod_attrs module) attr = None
               \<and> e = AttributeError attr"
    then obtain module where m: "import_module env (SERVICES_PACKAGE_NAME @ ''.'' @ n) = Inr module"
      "snd (invoke_init mf (mod_init module) []) = None" "map_of (mod_attrs module) attr = None"
      "e = AttributeError attr" by blast
    show ?thesis
      using that[of "fst (invoke_init mf (mod_init module) [])"]
        load_service_no_attribute[OF m(1,2,3)] m(4) isinstance_AttributeError by simp
  qed
  have "discover_step env (app_url_base self) ?home n (lg1, svcs)
          = ((?lg3 @ lg4) @ [(ERROR, ''['' @ exc_class e @ ''] '' @ exc_str e)], Inl e)"
    unfolding step ld by (rule after_load_fatal[OF fatal])
  then have "discover_services env self home_arg lg
          = ((?lg3 @ lg4) @ [(ERROR, ''['' @ exc_class e @ ''] '' @ exc_str e)], Inl e)"
    unfolding discover_services_split(1)[OF assms(1,2)] by (simp only: prod.case sum.case)
  then have "discover_services env self home_arg lg
          = (lg1 @ ([(INFO, ''analysing directory '' @ path_join (home_path ?home) n @ ''...''),
                     (INFO, ''... valid service location''),
                     (INFO, ''... loading service '' @ [CHR 0x27] @ n
                              @ [CHR 0x27] @ '' from module '' @ [CHR 0x27]
                              @ SERVICES_PACKAGE_NAME @ ''.'' @ n
                              @ [CHR 0x27] @ ''...'')] @ lg4)
                 @ [(ERROR, ''['' @ exc_class e @ ''] '' @ exc_str e)], Inl e)"
    by simp
  then show ?thesis by blast
qed


theorem load_error_propagates_witness:
  "snd (discover_services ex_imports ex_server (Some (ex_home [''hello'', ''ghost'', ''_diags''])) [])
     = Inl (ImportError ''pycstbox.webservices.services.ghost'')
   \<and> snd (discover_services ex_imports ex_server (Some (ex_home [''noroutes'', ''_diags''])) [])
     = Inl (AttributeError ''handlers'')"
proof -
  let ?h1 = "Some (ex_home [''hello'', ''ghost'', ''_diags''])"
  let ?h2 = "Some (ex_home [''noroutes'', ''_diags''])"
  let ?d = "\<lparr>name = ''_diags'', label = ''_diags'',
              handlers = [(''/api/_diags/hello'', ''HelloHandler''),
                          (''/api/_diags/routes'', ''RoutesHandler'')]\<rparr>"
  have marker: "set marker_files \<subseteq> set [''__init__.py'', ''MANIFEST'']"
    by (simp add: marker_files_def MANIFEST_FILE_NAME_def)
  have rm: "read_manifest (Parsed [(''service'', [(''label'', Inr l)])])
              = Inr (\<lparr>cfg_defaults = services_cfg_defaults,
                       cfg_sections = [(''service'', [(''label'', Inr l)])]\<rparr>, l, ''handlers'')" for l
    by (simp add: read_manifest_def cfg_read_def cfg_get_def MANIFEST_MAIN_SECTION_def
        services_cfg_defaults_def)
  have names1: "service_names (effective_home ex_server ?h1) = [''_diags''] @ ''ghost'' # [''hello'']"
    by (simp add: ex_discover_defs)
  have "snd (discover_upto ex_imports ex_server ?h1 [] [''_diags'']) = Inr [?d]"
    by code_simp
  then have upto1: "discover_upto ex_imports ex_server ?h1 [] [''_diags'']
                     = (fst (discover_upto ex_imports ex_server ?h1 [] [''_diags'']), Inr [?d])"
    by (simp add: prod_eq_iff)
  have dir1: "map_of (home_entries (effective_home ex_server ?h1)) ''ghost''
               = Some (Dir [''__init__.py'', ''MANIFEST''] (Parsed [(''service'', [(''label'', Inr ''ghost'')])]))"
    by (simp add: ex_discover_defs)
  have imp1: "(import_module ex_imports (SERVICES_PACKAGE_NAME @ ''.'' @ ''ghost'')
                 = Inl (ImportError ''pycstbox.webservices.services.ghost'')
            \<and> (isinstance (ImportError ''pycstbox.webservices.services.ghost'') ''ImportError''
                 \<or> isinstance (ImportError ''pycstbox.webservices.services.ghost'') ''AttributeError''))
         \<or> (\<exists>module. import_module ex_imports (SERVICES_PACKAGE_NAME @ ''.'' @ ''ghost'') = Inr module
               \<and> snd (invoke_init \<lparr>cfg_defaults = services_cfg_defaults,
                       cfg_sections = [(''service'', [(''label'', Inr ''ghost'')])]\<rparr> (mod_init module) []) = None
               \<and> map_of (mod_attrs module) ''handlers'' = None
               \<and> ImportError ''pycstbox.webservices.services.ghost'' = AttributeError ''handlers'')"
    by (simp add: ex_imports_def ex_modules_def SERVICES_PACKAGE_NAME_def isinstance_def
        ImportError_def mk_exc_def)
  have names2: "service_names (effective_home ex_server ?h2) = [''_diags''] @ ''noroutes'' # []"
    by (simp add: ex_discover_defs)
  have "snd (discover_upto ex_imports ex_server ?h2 [] [''_diags'']) = Inr [?d]"
    by code_simp
  then have upto2: "discover_upto ex_imports ex_server ?h2 [] [''_diags'']
                     = (fst (discover_upto ex_imports ex_server ?h2 [] [''_diags'']), Inr [?d])"
    by (simp add: prod_eq_iff)
  have dir2: "map_of (home_entries (effective_home ex_server ?h2)) ''noroutes''
               = Some (Dir [''__init__.py'', ''MANIFEST''] (Parsed [(''service'', [(''label'', Inr ''noroutes'')])]))"
    by (simp add: ex_discover_defs)
  have imp2: "(import_module ex_imports (SERVICES_PACKAGE_NAME @ ''.'' @ ''noroutes'')
                 = Inl (AttributeError ''handlers'')
            \<and> (isinstance (AttributeError ''handlers'') ''ImportError''
                 \<or> isinstance (AttributeError ''handlers'') ''AttributeError''))
         \<or> (\<exists>module. import_module ex_imports (SERVICES_PACKAGE_NAME @ ''.'' @ ''noroutes'') = Inr module
               \<and> snd (invoke_init \<lparr>cfg_defaults = services_cfg_defaults,
                       cfg_sections = [(''service'', [(''label'', Inr ''noroutes'')])]\<rparr> (mod_init module) []) = None
               \<and> map_of (mod_attrs module) ''handlers'' = None
               \<and> AttributeError ''handlers'' = AttributeError ''handlers'')"
    by (simp add: ex_imports_def ex_modules_def SERVICES_PACKAGE_NAME_def invoke_init_def)
  show ?thesis
    using load_error_propagates[OF names1 upto1 dir1 marker rm imp1]
      load_error_propagates[OF names2 upto2 dir2 marker rm imp2]
    by auto
qed

lemma subseq_set: "subseq xs ys \<Longrightarrow> set xs \<subseteq> set ys"
  using list_emb_set[of "(=)" xs ys] by auto

lemma distinct_service_names:
  "distinct (map fst (home_entries home)) \<Longrightarrow> distinct (service_names home)"
  by (simp add: service_names_def)

text \<open>
  Claim C3: in a discovery run that reaches a plugin whose route table contains a
  pattern whose namespaced form \<open>re.compile\<close> rejects, the processing of that plugin
  leaves the list of descriptors as it was (nothing of the plugin is kept, its valid
  routes included), the log receives the message of the invalid route and the line
  \<open>*** Could not load service ...\<close>, and the run goes on with the directories that
  follow; the names of a directory listing being distinct, no descriptor of the
  returned list bears the name of that plugin.
\<close>

theorem invalid_route_skips_service:
  assumes "service_names (effective_home self home_arg) = pre @ n # rest"
    and "discover_upto env self home_arg lg pre = (lg1, Inr svcs)"
    and "map_of (home_entries (effective_home self home_arg)) n = Some (Dir files manifest)"
    and "set marker_files \<subseteq> set files"
    and "read_manifest manifest = Inr (mf, lbl, attr)"
    and "import_module env (SERVICES_PACKAGE_NAME @ ''.'' @ n) = Inr module"
    and "snd (invoke_init mf (mod_init module) []) = None"
    and "map_of (mod_attrs module) attr = Some mapping"
    and "\<exists>rule \<in> set mapping.
           re_error env (effective_url (url_base (app_url_base self) n) (fst rule)) \<noteq> None"
  shows "\<exists>entries url msg.
           re_error env url = Some msg
         \<and> discover_upto env self home_arg lg (pre @ [n])
             = (lg1 @ entries @
                  [(ERROR, exc_str (InvalidRoute url msg)),
                   (ERROR, ''*** Could not load service '' @ [CHR 0x27] @ n
                             @ [CHR 0x27] @ '' because of previous exception'')],
                Inr svcs)
         \<and> discover_services env self home_arg lg
             = discover_loop env (app_url_base self) (effective_home self home_arg) rest
                 (lg1 @ entries @
                    [(ERROR, exc_str (InvalidRoute url msg)),
                     (ERROR, ''*** Could not load service '' @ [CHR 0x27] @ n
                               @ [CHR 0x27] @ '' because of previous exception'')],
                  svcs)
         \<and> (distinct (map fst (home_entries (effective_home self home_arg))) \<longrightarrow>
               (\<forall>lg' services. discover_services env self home_arg lg = (lg', Inr services) \<longrightarrow>
                   n \<notin> set (map name services)))"
proof -
  let ?home = "effective_home self home_arg"
  let ?b = "app_url_base self"
  let ?lg3 = "lg1 @ [(INFO, ''analysing directory '' @ path_join (home_path ?home) n @ ''...''),
                     (INFO, ''... valid service location''),
                     (INFO, ''... loading service '' @ [CHR 0x27] @ n
                              @ [CHR 0x27] @ '' from module '' @ [CHR 0x27]
                              @ SERVICES_PACKAGE_NAME @ ''.'' @ n
                              @ [CHR 0x27] @ ''...'')]"
  let ?lg4 = "fst (invoke_init mf (mod_init module) [])"
  have step: "discover_step env ?b ?home n (lg1, svcs)
                = after_load n svcs (load_service env ?b n lbl attr mf ?lg3)"
    using discover_step_loaded[OF assms(3,4,5), of env ?b "(lg1, svcs)"] by simp
  from load_service_invalid_route[OF assms(6,7,8,9), of lbl ?lg3] obtain url msg
    where u: "re_error env url = Some msg"
      and ld: "load_service env ?b n lbl attr mf ?lg3 = (?lg3 @ ?lg4, Inl (InvalidRoute url msg))"
    by blast
  let ?tail = "[(ERROR, exc_str (InvalidRoute url msg)),
                (ERROR, ''*** Could not load service '' @ [CHR 0x27] @ n
                          @ [CHR 0x27] @ '' because of previous exception'')]"
  let ?entries = "[(INFO, ''analysing directory '' @ path_join (home_path ?home) n @ ''...''),
                   (INFO, ''... valid service location''),
                   (INFO, ''... loading service '' @ [CHR 0x27] @ n
                            @ [CHR 0x27] @ '' from module '' @ [CHR 0x27]
                            @ SERVICES_PACKAGE_NAME @ ''.'' @ n
                            @ [CHR 0x27] @ ''...'')] @ ?lg4"
  have "discover_step env ?b ?home n (lg1, svcs) = ((?lg3 @ ?lg4) @ ?tail, Inr svcs)"
    unfolding step ld by (rule after_load_invalid_route)
  then have st: "discover_step env ?b ?home n (lg1, svcs) = (lg1 @ ?entries @ ?tail, Inr svcs)"
    by simp
  have a: "discover_upto env self home_arg lg (pre @ [n]) = (lg1 @ ?entries @ ?tail, Inr svcs)"
    unfolding discover_services_split(2)[OF assms(1,2)] by (rule st)
  have b: "discover_services env self home_arg lg
             = discover_loop env ?b ?home rest (lg1 @ ?entries @ ?tail, svcs)"
    unfolding discover_services_split(1)[OF assms(1,2)] st by (simp only: prod.case sum.case)
  have c: "n \<notin> set (map name services)"
    if d: "distinct (map fst (home_entries ?home))"
      and r: "discover_services env self home_arg lg = (lg', Inr services)"
    for lg' services
  proof -
    have "distinct (pre @ n # rest)"
      using distinct_service_names[OF d] assms(1) by simp
    then have n: "n \<notin> set pre" "n \<notin> set rest" by auto
    have "discover_loop env ?b ?home pre
            (lg @ [(DEBUG, ''discovering services stored in '' @ home_path ?home)], [])
          = (lg1, Inr svcs)"
      using assms(2) by (simp add: discover_upto_def Let_def)
    from discover_loop_shape[OF this] have "subseq (map name svcs) pre" by auto
    then have p: "set (map name svcs) \<subseteq> set pre" by (rule subseq_set)
    have "discover_loop env ?b ?home rest (lg1 @ ?entries @ ?tail, svcs) = (lg', Inr services)"
      using b r by simp
    from discover_loop_shape[OF this] obtain ks
      where ks: "services = svcs @ ks" "subseq (map name ks) rest" by auto
    have "set (map name ks) \<subseteq> set rest" using ks(2) by (rule subseq_set)
    then show ?thesis using p n ks(1) by auto
  qed
  show ?thesis using u a b c by blast
qed

theorem invalid_route_skips_service_witness:
  "snd (discover_upto ex_imports ex_server (Some (ex_home [''hello'', ''badroute'', ''_diags'']))
          [] [''_diags'', ''badroute''])
     = Inr [\<lparr>name = ''_diags'', label = ''_diags'',
              handlers = [(''/api/_diags/hello'', ''HelloHandler''),
                          (''/api/_diags/routes'', ''RoutesHandler'')]\<rparr>]
   \<and> snd (discover_services ex_imports ex_server
            (Some (ex_home [''hello'', ''badroute'', ''_diags''])) [])
       = Inr [\<lparr>name = ''_diags'', label = ''_diags'',
                handlers = [(''/api/_diags/hello'', ''HelloHandler''),
                            (''/api/_diags/routes'', ''RoutesHandler'')]\<rparr>,
              \<lparr>name = ''hello'', label = ''hello'',
                handlers = [(''/api/hello/say'', ''SayHelloHandler'')]\<rparr>]
   \<and> ''badroute'' \<notin> set (map name
         [\<lparr>name = ''_diags'', label = ''_diags'',
                handlers = [(''/api/_diags/hello'', ''HelloHandler''),
                            (''/api/_diags/routes'', ''RoutesHandler'')]\<rparr>,
              \<lparr>name = ''hello'', label = ''hello'',
                handlers = [(''/api/hello/say'', ''SayHelloHandler'')]\<rparr>])"
proof -
  let ?h = "Some (ex_home [''hello'', ''badroute'', ''_diags''])"
  let ?d = "\<lparr>name = ''_diags'', label = ''_diags'',
              handlers = [(''/api/_diags/hello'', ''HelloHandler''),
                          (''/api/_diags/routes'', ''RoutesHandler'')]\<rparr>"
  let ?d2 = "\<lparr>name = ''hello'', label = ''hello'',
                handlers = [(''/api/hello/say'', ''SayHelloHandler'')]\<rparr>"
  have marker: "set marker_files \<subseteq> set [''__init__.py'', ''MANIFEST'']"
    by (simp add: marker_files_def MANIFEST_FILE_NAME_def)
  have rm: "read_manifest (Parsed [(''service'', [(''label'', Inr ''badroute'')])])
              = Inr (\<lparr>cfg_defaults = services_cfg_defaults,
                       cfg_sections = [(''service'', [(''label'', Inr ''badroute'')])]\<rparr>,
                     ''badroute'', ''handlers'')"
    by (simp add: read_manifest_def cfg_read_def cfg_get_def MANIFEST_MAIN_SECTION_def
        services_cfg_defaults_def)
  have names: "service_names (effective_home ex_server ?h) = [''_diags''] @ ''badroute'' # [''hello'']"
    by (simp add: ex_discover_defs)
  have "snd (discover_upto ex_imports ex_server ?h [] [''_diags'']) = Inr [?d]"
    by code_simp
  then have upto: "discover_upto ex_imports ex_server ?h [] [''_diags'']
                     = (fst (discover_upto ex_imports ex_server ?h [] [''_diags'']), Inr [?d])"
    by (simp add: prod_eq_iff)
  have dir: "map_of (home_entries (effective_home ex_server ?h)) ''badroute''
               = Some (Dir [''__init__.py'', ''MANIFEST''] (Parsed [(''service'', [(''label'', Inr ''badroute'')])]))"
    by (simp add: ex_discover_defs)
  have imp: "import_module ex_imports (SERVICES_PACKAGE_NAME @ ''.'' @ ''badroute'')
               = Inr \<lparr>mod_init = None,
                      mod_attrs = [(''handlers'', [(''/ok'', ''OkHandler''), (''/(x'', ''XHandler'')])]\<rparr>"
    by (simp add: ex_imports_def ex_modules_def SERVICES_PACKAGE_NAME_def)
  have init: "snd (invoke_init \<lparr>cfg_defaults = services_cfg_defaults,
                       cfg_sections = [(''service'', [(''label'', Inr ''badroute'')])]\<rparr>
                (mod_init \<lparr>mod_init = None,
                      mod_attrs = [(''handlers'', [(''/ok'', ''OkHandler''), (''/(x'', ''XHandler'')])]\<rparr>) [])
              = None"
    by (simp add: invoke_init_def)
  have attr: "map_of (mod_attrs \<lparr>mod_init = None,
                      mod_attrs = [(''handlers'', [(''/ok'', ''OkHandler''), (''/(x'', ''XHandler'')])]\<rparr>)
                ''handlers'' = Some [(''/ok'', ''OkHandler''), (''/(x'', ''XHandler'')]"
    by simp
  have bad: "\<exists>rule \<in> set [(''/ok'', ''OkHandler''), (''/(x'', ''XHandler'')].
           re_error ex_imports (effective_url (url_base (app_url_base ex_server) ''badroute'') (fst rule)) \<noteq> None"
    by (simp add: ex_imports_def effective_url_def lstrip_def)
  have dist: "distinct (map fst (home_entries (effective_home ex_server ?h)))"
    by (simp add: ex_discover_defs)
  have r: "snd (discover_services ex_imports ex_server ?h []) = Inr [?d, ?d2]"
    by code_simp
  then have run: "discover_services ex_imports ex_server ?h []
                    = (fst (discover_services ex_imports ex_server ?h []), Inr [?d, ?d2])"
    by (simp add: prod_eq_iff)
  from invalid_route_skips_service[OF names upto dir marker rm imp init attr bad]
  obtain entries url msg where
    a: "discover_upto ex_imports ex_server ?h [] ([''_diags''] @ [''badroute''])
             = (fst (discover_upto ex_imports ex_server ?h [] [''_diags'']) @ entries @
                  [(ERROR, exc_str (InvalidRoute url msg)),
                   (ERROR, ''*** Could not load service '' @ [CHR 0x27] @ ''badroute''
                             @ [CHR 0x27] @ '' because of previous exception'')],
                Inr [?d])"
    and c: "distinct (map fst (home_entries (effective_home ex_server ?h))) \<longrightarrow>
               (\<forall>lg' services. discover_services ex_imports ex_server ?h [] = (lg', Inr services) \<longrightarrow>
                   ''badroute'' \<notin> set (map name services))"
    by blast
  have "snd (discover_upto ex_imports ex_server ?h [] [''_diags'', ''badroute'']) = Inr [?d]"
    using a by simp
  moreover have "''badroute'' \<notin> set (map name [?d, ?d2])"
    using c dist run by blast
  ultimately show ?thesis using r by blast
qed

end
